theory Spec2Isabelle
  imports Complex_Main
begin

section \<open>Numbers and arrays\<close>

text \<open>
  The detector of \<^verbatim>\<open>ow_lander/scripts/ground_detection.py\<close> computes with Python floats and
  numpy arrays of float64. A float64 is modelled by its special values and, for the finite
  ones, by the real number it stands for: rounding, overflow, underflow and the sign of zero
  are left out, while division by zero, infinities and NaN behave as numpy computes them
  (numpy warns and returns NaN or an infinity; it does not raise).
\<close>

datatype float64 = Fin real | PInf | NInf | NaN

fun f_neg :: "float64 \<Rightarrow> float64" where
  "f_neg (Fin a) = Fin (- a)"
| "f_neg PInf = NInf"
| "f_neg NInf = PInf"
| "f_neg NaN = NaN"

fun f_add :: "float64 \<Rightarrow> float64 \<Rightarrow> float64" where
  "f_add (Fin a) (Fin b) = Fin (a + b)"
| "f_add NaN _ = NaN"
| "f_add _ NaN = NaN"
| "f_add PInf NInf = NaN"
| "f_add NInf PInf = NaN"
| "f_add PInf _ = PInf"
| "f_add _ PInf = PInf"
| "f_add NInf _ = NInf"
| "f_add _ NInf = NInf"

definition f_sub :: "float64 \<Rightarrow> float64 \<Rightarrow> float64" where
  "f_sub a b = f_add a (f_neg b)"

fun f_mul :: "float64 \<Rightarrow> float64 \<Rightarrow> float64" where
  "f_mul (Fin a) (Fin b) = Fin (a * b)"
| "f_mul NaN _ = NaN"
| "f_mul _ NaN = NaN"
| "f_mul (Fin a) i = (if a = 0 then NaN else if 0 < a then i else f_neg i)"
| "f_mul i (Fin b) = (if b = 0 then NaN else if 0 < b then i else f_neg i)"
| "f_mul PInf i = i"
| "f_mul NInf i = f_neg i"

fun f_div :: "float64 \<Rightarrow> float64 \<Rightarrow> float64" where
  "f_div (Fin a) (Fin b) =
     (if b \<noteq> 0 then Fin (a / b)
      else if a = 0 then NaN else if 0 < a then PInf else NInf)"
| "f_div NaN _ = NaN"
| "f_div _ NaN = NaN"
| "f_div (Fin a) _ = Fin 0"
| "f_div i (Fin b) = (if 0 \<le> b then i else f_neg i)"
| "f_div _ _ = NaN"

fun f_sqrt :: "float64 \<Rightarrow> float64" where
  "f_sqrt (Fin a) = (if 0 \<le> a then Fin (sqrt a) else NaN)"
| "f_sqrt PInf = PInf"
| "f_sqrt NInf = NaN"
| "f_sqrt NaN = NaN"

text \<open>Comparison \<^verbatim>\<open><\<close>: every comparison with NaN is false.\<close>

fun f_less :: "float64 \<Rightarrow> float64 \<Rightarrow> bool" where
  "f_less (Fin a) (Fin b) = (a < b)"
| "f_less NaN _ = False"
| "f_less _ NaN = False"
| "f_less _ NInf = False"
| "f_less PInf _ = False"
| "f_less _ _ = True"

text \<open>
  A numpy array of shape (3,): the arrays of the detector are all built from the three
  coordinates of a position.
\<close>

datatype ndarray = Array3 float64 float64 float64

text \<open>A \<^verbatim>\<open>geometry_msgs\<close> Vector3 message, and the Point that \<^verbatim>\<open>ground_position\<close> returns.\<close>

datatype Vector3 = Vector3 (vec_x: float64) (vec_y: float64) (vec_z: float64)

datatype Point = Point float64 float64 float64

text \<open>\<^verbatim>\<open>np.array([new_position.x, new_position.y, new_position.z])\<close>\<close>

definition np_array :: "Vector3 \<Rightarrow> ndarray" where
  "np_array p = Array3 (vec_x p) (vec_y p) (vec_z p)"

fun arr_add :: "ndarray \<Rightarrow> ndarray \<Rightarrow> ndarray" where
  "arr_add (Array3 a b c) (Array3 d e f) = Array3 (f_add a d) (f_add b e) (f_add c f)"

fun arr_sub :: "ndarray \<Rightarrow> ndarray \<Rightarrow> ndarray" where
  "arr_sub (Array3 a b c) (Array3 d e f) = Array3 (f_sub a d) (f_sub b e) (f_sub c f)"

fun arr_div :: "ndarray \<Rightarrow> float64 \<Rightarrow> ndarray" where
  "arr_div (Array3 a b c) s = Array3 (f_div a s) (f_div b s) (f_div c s)"

text \<open>\<^verbatim>\<open>np.linalg.norm\<close> of a one-dimensional array: the Euclidean norm.\<close>

fun linalg_norm :: "ndarray \<Rightarrow> float64" where
  "linalg_norm (Array3 a b c) = f_sqrt (f_add (f_add (f_mul a a) (f_mul b b)) (f_mul c c))"

fun np_dot :: "ndarray \<Rightarrow> ndarray \<Rightarrow> float64" where
  "np_dot (Array3 a b c) (Array3 d e f) = f_add (f_add (f_mul a d) (f_mul b e)) (f_mul c f)"

text \<open>
  \<^verbatim>\<open>np.mean(a, axis=0)\<close> on a sequence of arrays: the rows are summed column by column, in
  the order of the sequence, and the sum is divided by the number of rows. On an empty
  sequence the division is 0/0 and the result is NaN.
\<close>

definition np_sum_axis0 :: "ndarray list \<Rightarrow> ndarray" where
  "np_sum_axis0 rows = foldl arr_add (Array3 (Fin 0) (Fin 0) (Fin 0)) rows"

definition np_mean_axis0 :: "ndarray list \<Rightarrow> ndarray" where
  "np_mean_axis0 rows = arr_div (np_sum_axis0 rows) (Fin (real (length rows)))"

text \<open>
  \<^verbatim>\<open>np.isclose(a, b, atol=...)\<close> with the default \<^verbatim>\<open>rtol=1.e-5\<close>, on finite arguments (the two
  readings of the clock are finite).
\<close>

definition np_isclose :: "real \<Rightarrow> real \<Rightarrow> real \<Rightarrow> bool" where
  "np_isclose a b atol = (\<bar>a - b\<bar> \<le> atol + (1 / 100000) * \<bar>b\<bar>)"

section \<open>Exceptions\<close>

datatype error = AttributeError | TypeError | IndexError

section \<open>SlidingWindow\<close>

text \<open>
  The deque \<^verbatim>\<open>_que\<close> is the list \<open>que\<close>, its left end first: \<^verbatim>\<open>appendleft\<close> is \<open>#\<close>, and
  \<^verbatim>\<open>pop\<close> removes the last element (it raises IndexError on an empty deque). The
  summarization method is any function of the deque.
\<close>

record ('a, 'b) SlidingWindow =
  que :: "'a list"
  wsize :: int
  method_sw :: "'a list \<Rightarrow> 'b"

definition SlidingWindow_init :: "int \<Rightarrow> ('a list \<Rightarrow> 'b) \<Rightarrow> ('a, 'b) SlidingWindow" where
  "SlidingWindow_init sz m = \<lparr>que = [], wsize = sz, method_sw = m\<rparr>"

definition append_sw ::
    "'a \<Rightarrow> ('a, 'b) SlidingWindow \<Rightarrow> error + ('a, 'b) SlidingWindow" where
  "append_sw val w =
     (if wsize w \<le> int (length (que w)) then
        (case que w of
           [] \<Rightarrow> Inl IndexError
         | _ # _ \<Rightarrow> Inr (w\<lparr>que := val # butlast (que w)\<rparr>))
      else Inr (w\<lparr>que := val # que w\<rparr>))"

definition valid_sw :: "('a, 'b) SlidingWindow \<Rightarrow> bool" where
  "valid_sw w = (int (length (que w)) = wsize w)"

definition value_sw :: "('a, 'b) SlidingWindow \<Rightarrow> 'b" where
  "value_sw w = method_sw w (que w)"

text \<open>A sequence of calls of \<^verbatim>\<open>append\<close>, in arrival order; an exception ends it.\<close>

fun appends :: "'a list \<Rightarrow> ('a, 'b) SlidingWindow \<Rightarrow> error + ('a, 'b) SlidingWindow" where
  "appends [] w = Inr w"
| "appends (x # xs) w =
     (case append_sw x w of Inl e \<Rightarrow> Inl e | Inr w' \<Rightarrow> appends xs w')"

section \<open>GroundDetector\<close>

definition SKIP_SAMPLES_COUNT :: int where
  "SKIP_SAMPLES_COUNT = 5"

definition ROLLING_AVERAGE_WINDOW :: int where
  "ROLLING_AVERAGE_WINDOW = 5"

definition DIRECTION_TOLERANCE :: float64 where
  "DIRECTION_TOLERANCE = Fin (95 / 100)"

text \<open>
  The two methods that \<^verbatim>\<open>_check_ground_method\<close> can hold, and the two lambdas that
  \<^verbatim>\<open>_query_ground_position_method\<close> can hold.
\<close>

datatype check_method = Tf_2_method | Gazebo_link_states_method

datatype query_method = Query_last_position | Query_tf_lookup

record GroundDetector =
  last_position :: "ndarray option"
  last_time :: "real option"
  ground_detected :: bool
  samples_skipped :: int
  trending_velocity :: "(ndarray, ndarray) SlidingWindow"
  reference_velocity :: "ndarray option"
  check_ground_method :: check_method
  query_ground_position_method :: query_method

definition reset :: "GroundDetector \<Rightarrow> GroundDetector" where
  "reset self = self
     \<lparr>last_position := None, last_time := None,
      ground_detected := False,
      samples_skipped := 0,
      trending_velocity := SlidingWindow_init ROLLING_AVERAGE_WINDOW np_mean_axis0,
      reference_velocity := None\<rparr>"

text \<open>
  \<^verbatim>\<open>__init__\<close>: the object has no attribute before \<^verbatim>\<open>reset()\<close> runs, so the record it
  starts from only fixes the two fields that the constructor sets afterwards.
\<close>

definition GroundDetector_init :: GroundDetector where
  "GroundDetector_init =
     (let self = reset
            \<lparr>last_position = None, last_time = None, ground_detected = False,
             samples_skipped = 0,
             trending_velocity = SlidingWindow_init ROLLING_AVERAGE_WINDOW np_mean_axis0,
             reference_velocity = None,
             check_ground_method = Tf_2_method,
             query_ground_position_method = Query_last_position\<rparr>;
          self = self\<lparr>check_ground_method := Tf_2_method\<rparr>
      in if check_ground_method self = Gazebo_link_states_method
         then self\<lparr>query_ground_position_method := Query_tf_lookup\<rparr>
         else self\<lparr>query_ground_position_method := Query_last_position\<rparr>)"

text \<open>
  \<^verbatim>\<open>_check_condition\<close>. The reading of the clock, \<^verbatim>\<open>rospy.get_time()\<close>, is the argument
  \<open>now\<close>. The result is what the call returns or raises, with the detector as the call leaves
  it: an exception keeps the assignments made before it. \<^verbatim>\<open>new_position\<close> is \<open>None\<close> when
  the caller passes Python's \<^verbatim>\<open>None\<close>, and reading \<^verbatim>\<open>new_position.x\<close> then raises
  AttributeError.
\<close>

definition check_condition ::
    "Vector3 option \<Rightarrow> real \<Rightarrow> GroundDetector \<Rightarrow> (error + bool) \<times> GroundDetector" where
  "check_condition new_position now self =
     (case last_position self of
        None \<Rightarrow>
          (case new_position of
             None \<Rightarrow> (Inl AttributeError, self)
           | Some p \<Rightarrow>
               (Inr False, self\<lparr>last_position := Some (np_array p), last_time := Some now\<rparr>))
      | Some last_pos \<Rightarrow>
          (case new_position of
             None \<Rightarrow> (Inl AttributeError, self)
           | Some p \<Rightarrow>
               (case last_time self of
                  None \<Rightarrow> (Inl TypeError, self)
                | Some last_t \<Rightarrow>
                    (let current_position = np_array p;
                         current_time = now;
                         delta_d = arr_sub current_position last_pos;
                         delta_t = current_time - last_t
                     in if np_isclose delta_t 0 (1 / 10000) then (Inr False, self)
                        else
                          (let self = self\<lparr>last_position := Some current_position,
                                           last_time := Some current_time\<rparr>;
                               velocity_z = arr_div delta_d (Fin delta_t)
                           in case append_sw velocity_z (trending_velocity self) of
                                Inl e \<Rightarrow> (Inl e, self)
                              | Inr w \<Rightarrow>
                                  (let self = self\<lparr>trending_velocity := w\<rparr>
                                   in case reference_velocity self of
                                        None \<Rightarrow>
                                          if valid_sw (trending_velocity self) then
                                            (let self = self\<lparr>samples_skipped :=
                                                               samples_skipped self + 1\<rparr>
                                             in if samples_skipped self \<le> SKIP_SAMPLES_COUNT
                                                then (Inr False, self)
                                                else (Inr False,
                                                      self\<lparr>reference_velocity :=
                                                        Some (value_sw (trending_velocity self))\<rparr>))
                                          else (Inr False, self)
                                      | Some ref \<Rightarrow>
                                          (let r = ref;
                                               r = arr_div r (linalg_norm r);
                                               t = value_sw (trending_velocity self);
                                               t = arr_div t (linalg_norm t);
                                               r_x_t = np_dot r t
                                           in (Inr (f_less r_x_t DIRECTION_TOLERANCE), self))))))))"

text \<open>
  \<^verbatim>\<open>_tf_lookup_position\<close>: the outcome of \<^verbatim>\<open>self._buffer.lookup_transform\<close> is an input; the
  three exceptions are caught and turned into \<^verbatim>\<open>None\<close>.
\<close>

datatype lookup_result =
  Transform Vector3 | LookupException | ConnectivityException | ExtrapolationException

fun tf_lookup_position :: "lookup_result \<Rightarrow> Vector3 option" where
  "tf_lookup_position (Transform translation) = Some translation"
| "tf_lookup_position LookupException = None"
| "tf_lookup_position ConnectivityException = None"
| "tf_lookup_position ExtrapolationException = None"

definition tf_2_method ::
    "lookup_result \<Rightarrow> real \<Rightarrow> GroundDetector \<Rightarrow> (error + bool) \<times> GroundDetector" where
  "tf_2_method lookup now self = check_condition (tf_lookup_position lookup) now self"

definition gazebo_link_states_method :: "GroundDetector \<Rightarrow> (error + bool) \<times> GroundDetector" where
  "gazebo_link_states_method self = (Inr (ground_detected self), self)"

definition detect ::
    "lookup_result \<Rightarrow> real \<Rightarrow> GroundDetector \<Rightarrow> (error + bool) \<times> GroundDetector" where
  "detect lookup now self =
     (case check_ground_method self of
        Tf_2_method \<Rightarrow> tf_2_method lookup now self
      | Gazebo_link_states_method \<Rightarrow> gazebo_link_states_method self)"

text \<open>
  \<^verbatim>\<open>_handle_link_states\<close>, the subscriber callback of the other strategy. A LinkStates
  message carries the names of the links and their positions; \<^verbatim>\<open>data.name.index\<close> raises
  ValueError, caught here, when the name is missing.
\<close>

record LinkStates =
  ls_name :: "string list"
  ls_pose :: "Vector3 list"

fun list_index :: "'a list \<Rightarrow> 'a \<Rightarrow> nat option" where
  "list_index [] x = None"
| "list_index (y # ys) x = (if y = x then Some 0 else map_option Suc (list_index ys x))"

definition handle_link_states ::
    "LinkStates \<Rightarrow> real \<Rightarrow> GroundDetector \<Rightarrow> (error + unit) \<times> GroundDetector" where
  "handle_link_states data now self =
     (if ground_detected self then (Inr (), self)
      else case list_index (ls_name data) ''lander::l_scoop_tip'' of
             None \<Rightarrow> (Inr (), self)
           | Some idx \<Rightarrow>
               if idx < length (ls_pose data) then
                 (case check_condition (Some (ls_pose data ! idx)) now self of
                    (Inl e, self) \<Rightarrow> (Inl e, self)
                  | (Inr b, self) \<Rightarrow> (Inr (), self\<lparr>ground_detected := b\<rparr>))
               else (Inl IndexError, self))"

text \<open>
  \<^verbatim>\<open>ground_position\<close>: the value of \<^verbatim>\<open>self._query_ground_position_method()\<close> is \<^verbatim>\<open>None\<close>, a
  numpy array (the last position) or a Vector3 message (the translation looked up); only
  the array can be subscripted.
\<close>

datatype position_value = No_position | Array_position ndarray | Message_position Vector3

definition query_ground_position :: "lookup_result \<Rightarrow> GroundDetector \<Rightarrow> position_value" where
  "query_ground_position lookup self =
     (case query_ground_position_method self of
        Query_last_position \<Rightarrow>
          (case last_position self of None \<Rightarrow> No_position | Some a \<Rightarrow> Array_position a)
      | Query_tf_lookup \<Rightarrow>
          (case tf_lookup_position lookup of
             None \<Rightarrow> No_position | Some v \<Rightarrow> Message_position v))"

definition ground_position :: "lookup_result \<Rightarrow> GroundDetector \<Rightarrow> error + Point" where
  "ground_position lookup self =
     (case query_ground_position lookup self of
        No_position \<Rightarrow> Inl TypeError
      | Message_position v \<Rightarrow> Inl TypeError
      | Array_position (Array3 a b c) \<Rightarrow> Inr (Point a b c))"

text \<open>
  A caller that calls \<^verbatim>\<open>detect()\<close> once per input (the outcome of the lookup and the
  reading of the clock at that call) and records what each call returned or raised.
\<close>

fun detect_calls ::
    "(lookup_result \<times> real) list \<Rightarrow> GroundDetector \<Rightarrow> (error + bool) list \<times> GroundDetector" where
  "detect_calls [] self = ([], self)"
| "detect_calls ((lookup, now) # rest) self =
     (case detect lookup now self of
        (r, self) \<Rightarrow> (case detect_calls rest self of (rs, self) \<Rightarrow> (r # rs, self)))"

section \<open>Arrays as objects\<close>

text \<open>
  A numpy array is an object: \<^verbatim>\<open>r /= x\<close> changes the array that \<^verbatim>\<open>r\<close> names, for every holder
  of it. To see which arrays \<^verbatim>\<open>_check_condition\<close> can change, the method is written a second
  time over a store of arrays. The fields and the deque hold references; every expression of
  the source that builds an array (\<^verbatim>\<open>np.array\<close>, \<^verbatim>\<open>a - b\<close>, \<^verbatim>\<open>a / x\<close>, \<^verbatim>\<open>np.mean\<close>,
  \<^verbatim>\<open>copy.deepcopy\<close>) allocates a new one, and \<^verbatim>\<open>/=\<close> writes into an existing one.
\<close>

type_synonym ref = nat

record Store =
  cells :: "ref \<Rightarrow> ndarray"
  next_ref :: ref

definition new_array :: "ndarray \<Rightarrow> Store \<Rightarrow> ref \<times> Store" where
  "new_array v st =
     (next_ref st, st\<lparr>cells := (cells st)(next_ref st := v), next_ref := Suc (next_ref st)\<rparr>)"

definition deepcopy :: "ref \<Rightarrow> Store \<Rightarrow> ref \<times> Store" where
  "deepcopy a st = new_array (cells st a) st"

definition idiv_array :: "ref \<Rightarrow> float64 \<Rightarrow> Store \<Rightarrow> Store" where
  "idiv_array a x st = st\<lparr>cells := (cells st)(a := arr_div (cells st a) x)\<rparr>"

definition np_mean_axis0_refs :: "ref list \<Rightarrow> Store \<Rightarrow> ndarray" where
  "np_mean_axis0_refs rows st = np_mean_axis0 (map (cells st) rows)"

text \<open>
  The fields that \<^verbatim>\<open>_check_condition\<close> reads and writes, with the store. The summarization
  method reads the arrays of the deque from the store.
\<close>

record GroundDetector_refs =
  store :: Store
  last_position_r :: "ref option"
  last_time_r :: "real option"
  samples_skipped_r :: int
  trending_velocity_r :: "(ref, Store \<Rightarrow> ndarray) SlidingWindow"
  reference_velocity_r :: "ref option"

definition check_condition_r ::
    "Vector3 option \<Rightarrow> real \<Rightarrow> GroundDetector_refs \<Rightarrow> (error + bool) \<times> GroundDetector_refs" where
  "check_condition_r new_position now self =
     (case last_position_r self of
        None \<Rightarrow>
          (case new_position of
             None \<Rightarrow> (Inl AttributeError, self)
           | Some p \<Rightarrow>
               (let (a, st) = new_array (np_array p) (store self)
                in (Inr False,
                    self\<lparr>store := st, last_position_r := Some a, last_time_r := Some now\<rparr>)))
      | Some last_pos \<Rightarrow>
          (case new_position of
             None \<Rightarrow> (Inl AttributeError, self)
           | Some p \<Rightarrow>
               (let (current_position, st) = new_array (np_array p) (store self);
                    current_time = now;
                    (delta_d, st) =
                       new_array (arr_sub (cells st current_position) (cells st last_pos)) st;
                    self = self\<lparr>store := st\<rparr>
                in case last_time_r self of
                     None \<Rightarrow> (Inl TypeError, self)
                   | Some last_t \<Rightarrow>
                       (let delta_t = current_time - last_t
                        in if np_isclose delta_t 0 (1 / 10000) then (Inr False, self)
                           else
                             (let self = self\<lparr>last_position_r := Some current_position,
                                              last_time_r := Some current_time\<rparr>;
                                  (velocity_z, st) =
                                     new_array (arr_div (cells st delta_d) (Fin delta_t)) st;
                                  self = self\<lparr>store := st\<rparr>
                              in case append_sw velocity_z (trending_velocity_r self) of
                                   Inl e \<Rightarrow> (Inl e, self)
                                 | Inr w \<Rightarrow>
                                     (let self = self\<lparr>trending_velocity_r := w\<rparr>
                                      in case reference_velocity_r self of
                                           None \<Rightarrow>
                                             if valid_sw (trending_velocity_r self) then
                                               (let self = self\<lparr>samples_skipped_r :=
                                                                  samples_skipped_r self + 1\<rparr>
                                                in if samples_skipped_r self \<le> SKIP_SAMPLES_COUNT
                                                   then (Inr False, self)
                                                   else
                                                     (let (m, st) =
                                                            new_array
                                                              (value_sw (trending_velocity_r self)
                                                                 (store self)) (store self)
                                                      in (Inr False,
                                                          self\<lparr>store := st,
                                                               reference_velocity_r := Some m\<rparr>)))
                                             else (Inr False, self)
                                         | Some ref \<Rightarrow>
                                             (let (r, st) = deepcopy ref (store self);
                                                  st = idiv_array r (linalg_norm (cells st r)) st;
                                                  (m, st) =
                                                     new_array
                                                       (value_sw (trending_velocity_r self) st) st;
                                                  (t, st) = deepcopy m st;
                                                  st = idiv_array t (linalg_norm (cells st t)) st;
                                                  r_x_t = np_dot (cells st r) (cells st t)
                                              in (Inr (f_less r_x_t DIRECTION_TOLERANCE),
                                                  self\<lparr>store := st\<rparr>))))))))"

definition refs_allocated :: "GroundDetector_refs \<Rightarrow> bool" where
  "refs_allocated self \<longleftrightarrow>
     (\<forall>a. last_position_r self = Some a \<longrightarrow> a < next_ref (store self))
     \<and> (\<forall>a\<in>set (que (trending_velocity_r self)). a < next_ref (store self))
     \<and> (\<forall>a. reference_velocity_r self = Some a \<longrightarrow> a < next_ref (store self))"

text \<open>
  The detector that a detector with references stands for: every reference is replaced by
  the array it names. The fields that \<^verbatim>\<open>_check_condition\<close> does not touch are taken from \<open>g\<close>.
\<close>

definition deref_window ::
    "(ref \<Rightarrow> ndarray) \<Rightarrow> (ref, Store \<Rightarrow> ndarray) SlidingWindow
      \<Rightarrow> (ndarray, ndarray) SlidingWindow" where
  "deref_window c w = \<lparr>que = map c (que w), wsize = wsize w, method_sw = np_mean_axis0\<rparr>"

definition deref :: "GroundDetector \<Rightarrow> GroundDetector_refs \<Rightarrow> GroundDetector" where
  "deref g self = g
     \<lparr>last_position := map_option (cells (store self)) (last_position_r self),
      last_time := last_time_r self,
      samples_skipped := samples_skipped_r self,
      trending_velocity := deref_window (cells (store self)) (trending_velocity_r self),
      reference_velocity := map_option (cells (store self)) (reference_velocity_r self)\<rparr>"

fun check_calls_r ::
    "(Vector3 option \<times> real) list \<Rightarrow> GroundDetector_refs \<Rightarrow> GroundDetector_refs" where
  "check_calls_r [] self = self"
| "check_calls_r ((new_position, now) # rest) self =
     check_calls_r rest (snd (check_condition_r new_position now self))"


section \<open>Vectors of real numbers\<close>

text \<open>
  The properties below are stated with vectors of reals and their textbook operations;
  \<open>fin_array\<close> is the array whose three entries are the finite floats of a vector.
\<close>

type_synonym real3 = "real \<times> real \<times> real"

fun fin_array :: "real3 \<Rightarrow> ndarray" where
  "fin_array (a, b, c) = Array3 (Fin a) (Fin b) (Fin c)"

definition elementwise_mean :: "real3 list \<Rightarrow> real3" where
  "elementwise_mean vs =
     (sum_list (map fst vs) / real (length vs),
      sum_list (map (\<lambda>v. fst (snd v)) vs) / real (length vs),
      sum_list (map (\<lambda>v. snd (snd v)) vs) / real (length vs))"

fun dot3 :: "real3 \<Rightarrow> real3 \<Rightarrow> real" where
  "dot3 (a, b, c) (d, e, f) = a * d + b * e + c * f"

definition norm3 :: "real3 \<Rightarrow> real" where
  "norm3 v = sqrt (dot3 v v)"

definition cosine_similarity :: "real3 \<Rightarrow> real3 \<Rightarrow> real" where
  "cosine_similarity r t = dot3 r t / (norm3 r * norm3 t)"

fun scale3 :: "real \<Rightarrow> real3 \<Rightarrow> real3" where
  "scale3 k (a, b, c) = (k * a, k * b, k * c)"

section \<open>The phase before the reference velocity\<close>

text \<open>
  What holds of the detector after \<open>k\<close> calls of \<^verbatim>\<open>detect()\<close> since \<^verbatim>\<open>reset()\<close>, while no
  reference velocity is set: the window holds fewer than \<open>k\<close> velocities, and the skip
  counter has only counted calls from the sixth on.
\<close>

definition warmup_inv :: "nat \<Rightarrow> GroundDetector \<Rightarrow> bool" where
  "warmup_inv k self \<longleftrightarrow>
     check_ground_method self = Tf_2_method
     \<and> reference_velocity self = None
     \<and> wsize (trending_velocity self) = ROLLING_AVERAGE_WINDOW
     \<and> (case last_position self of
          None \<Rightarrow> que (trending_velocity self) = []
        | Some _ \<Rightarrow> last_time self \<noteq> None \<and> length (que (trending_velocity self)) < k)
     \<and> samples_skipped self \<le> max 0 (int k - 5)"

text \<open>
  The readings of the clock of a sequence of samples that are all accepted: no reading is
  within the tolerance of the one before it. \<open>exact_inv k\<close> is what then holds after \<open>k\<close>
  calls, up to the tenth: the window holds \<open>k - 1\<close> velocities, five at most, and the skip
  counter has counted the calls from the sixth on.
\<close>

fun spaced :: "real list \<Rightarrow> bool" where
  "spaced (a # b # ts) = (\<not> np_isclose (b - a) 0 (1 / 10000) \<and> spaced (b # ts))"
| "spaced _ = True"

definition exact_inv :: "nat \<Rightarrow> GroundDetector \<Rightarrow> bool" where
  "exact_inv k self \<longleftrightarrow>
     check_ground_method self = Tf_2_method
     \<and> reference_velocity self = None
     \<and> wsize (trending_velocity self) = ROLLING_AVERAGE_WINDOW
     \<and> length (que (trending_velocity self)) = min (k - 1) 5
     \<and> samples_skipped self = max 0 (int k - 5)
     \<and> (last_position self = None \<longleftrightarrow> k = 0)
     \<and> (last_time self = None \<longleftrightarrow> k = 0)"

section \<open>Example runs\<close>

text \<open>
  A steady descent: eleven positions, one second apart, each one unit lower than the one
  before. \<open>after_descent\<close> is the detector after these eleven calls of \<^verbatim>\<open>detect()\<close> on a new
  instance: the eleventh call has set the reference velocity. After the descent, \<open>slip\<close> is
  one sample with a sideways jump and one that returns to the line of the descent, and
  \<open>halt\<close> is five samples at the position where the descent ended.
\<close>

definition sample :: "real \<Rightarrow> real \<Rightarrow> real \<Rightarrow> lookup_result \<times> real" where
  "sample x z t = (Transform (Vector3 (Fin x) (Fin 0) (Fin z)), t)"

definition descent :: "(lookup_result \<times> real) list" where
  "descent = [sample 0 0 0, sample 0 (-1) 1, sample 0 (-2) 2, sample 0 (-3) 3, sample 0 (-4) 4,
     sample 0 (-5) 5, sample 0 (-6) 6, sample 0 (-7) 7, sample 0 (-8) 8, sample 0 (-9) 9,
     sample 0 (-10) 10]"

definition after_descent :: GroundDetector where
  "after_descent =
     \<lparr>last_position = Some (fin_array (0, 0, -10)), last_time = Some 10,
      ground_detected = False, samples_skipped = 6,
      trending_velocity =
        \<lparr>que = replicate 5 (fin_array (0, 0, -1)), wsize = 5, method_sw = np_mean_axis0\<rparr>,
      reference_velocity = Some (fin_array (0, 0, -1)),
      check_ground_method = Tf_2_method,
      query_ground_position_method = Query_last_position\<rparr>"

definition slip :: "(lookup_result \<times> real) list" where
  "slip = [sample 15 (-26) 11, sample 0 (-27) 12]"

definition halt :: "(lookup_result \<times> real) list" where
  "halt = [sample 0 (-10) 11, sample 0 (-10) 12, sample 0 (-10) 13, sample 0 (-10) 14,
           sample 0 (-10) 15]"

text \<open>
  \<open>before_reference\<close> is the detector after the first ten calls of the steady descent, and
  \<open>after_descent_refs\<close> is a detector with references that stands for \<open>after_descent\<close>.
\<close>

definition before_reference :: GroundDetector where
  "before_reference =
     \<lparr>last_position = Some (fin_array (0, 0, -9)), last_time = Some 9,
      ground_detected = False, samples_skipped = 5,
      trending_velocity =
        \<lparr>que = replicate 5 (fin_array (0, 0, -1)), wsize = 5, method_sw = np_mean_axis0\<rparr>,
      reference_velocity = None,
      check_ground_method = Tf_2_method,
      query_ground_position_method = Query_last_position\<rparr>"

definition after_descent_refs :: GroundDetector_refs where
  "after_descent_refs =
     \<lparr>store = \<lparr>cells = (\<lambda>a. if a = 0 then fin_array (0, 0, -10) else fin_array (0, 0, -1)),
               next_ref = 7\<rparr>,
      last_position_r = Some 0, last_time_r = Some 10, samples_skipped_r = 6,
      trending_velocity_r = \<lparr>que = [5, 4, 3, 2, 1], wsize = 5, method_sw = np_mean_axis0_refs\<rparr>,
      reference_velocity_r = Some 6\<rparr>"

text \<open>
  \<open>wobble\<close> is the steady descent with the seventh position moved sideways: the seventh and
  the eighth velocity have opposite sideways parts, which cancel in the mean of the window at
  the eleventh call. \<open>after_wobble\<close> is the detector after these eleven calls.
\<close>

definition wobble :: "(lookup_result \<times> real) list" where
  "wobble = [sample 0 0 0, sample 0 (-1) 1, sample 0 (-2) 2, sample 0 (-3) 3, sample 0 (-4) 4,
     sample 0 (-5) 5, sample (15 / 4) (-6) 6, sample 0 (-7) 7, sample 0 (-8) 8, sample 0 (-9) 9,
     sample 0 (-10) 10]"

definition after_wobble :: GroundDetector where
  "after_wobble =
     \<lparr>last_position = Some (fin_array (0, 0, -10)), last_time = Some 10,
      ground_detected = False, samples_skipped = 6,
      trending_velocity =
        \<lparr>que = [fin_array (0, 0, -1), fin_array (0, 0, -1), fin_array (0, 0, -1),
                fin_array (- (15 / 4), 0, -1), fin_array (15 / 4, 0, -1)],
         wsize = 5, method_sw = np_mean_axis0\<rparr>,
      reference_velocity = Some (fin_array (0, 0, -1)),
      check_ground_method = Tf_2_method,
      query_ground_position_method = Query_last_position\<rparr>"

section \<open>Properties of SlidingWindow\<close>

lemma append_sw_take:
  assumes "1 \<le> N" and "wsize w = int N" and "length (que w) \<le> N"
  shows "append_sw x w = Inr (w\<lparr>que := take N (x # que w)\<rparr>)"
proof (cases "length (que w) = N")
  case True
  with assms(1) obtain y ys where q: "que w = y # ys"
    by (cases "que w") auto
  have "take N (x # que w) = x # butlast (que w)"
    using True assms(1) by (cases N) (simp_all add: butlast_conv_take)
  then show ?thesis
    using True assms(2) q by (simp add: append_sw_def)
next
  case False
  with assms(3) have "length (que w) < N" by simp
  then show ?thesis
    using assms(2) by (simp add: append_sw_def)
qed

lemma appends_take:
  assumes "1 \<le> N" and "wsize w = int N" and "length (que w) \<le> N"
  shows "appends xs w = Inr (w\<lparr>que := take N (rev xs @ que w)\<rparr>)"
  using assms(2,3)
proof (induction xs arbitrary: w)
  case Nil
  then show ?case by simp
next
  case (Cons x xs)
  let ?w = "w\<lparr>que := take N (x # que w)\<rparr>"
  have step: "append_sw x w = Inr ?w"
    using assms(1) Cons.prems by (rule append_sw_take)
  have "appends xs ?w = Inr (?w\<lparr>que := take N (rev xs @ que ?w)\<rparr>)"
    using Cons.prems by (intro Cons.IH) simp_all
  moreover have "take N (rev xs @ take N (x # que w)) = take N (rev xs @ x # que w)"
    by (simp add: take_add min_def)
  ultimately show ?case
    using step by simp
qed

text \<open>
  C5. For every capacity \<open>N \<ge> 1\<close> and every sequence \<open>xs\<close> of appended values (so also at
  every moment of a longer sequence), starting from the empty window: no call raises, the
  stored length is \<open>min (length xs) N\<close> and so never exceeds \<open>N\<close>, \<open>valid\<close> holds exactly when
  at least \<open>N\<close> values have been appended, and the stored values, read from the end of the
  deque where values leave to the end where they enter, are the last \<open>N\<close> appended values in
  arrival order (all of them while fewer than \<open>N\<close> have arrived).
\<close>

theorem SlidingWindow_fifo:
  assumes "1 \<le> N"
  shows "\<exists>w. appends xs (SlidingWindow_init (int N) m) = Inr w
           \<and> length (que w) \<le> N
           \<and> length (que w) = min (length xs) N
           \<and> (valid_sw w \<longleftrightarrow> N \<le> length xs)
           \<and> rev (que w) = drop (length xs - N) xs"
proof -
  let ?init = "SlidingWindow_init (int N) m"
  let ?res = "?init\<lparr>que := take N (rev xs @ que ?init)\<rparr>"
  have "appends xs ?init = Inr ?res"
    using assms by (intro appends_take) (simp_all add: SlidingWindow_init_def)
  moreover have "que ?res = take N (rev xs)"
    by (simp add: SlidingWindow_init_def)
  moreover have "wsize ?res = int N"
    by (simp add: SlidingWindow_init_def)
  moreover have "rev (take N (rev xs)) = drop (length xs - N) xs"
    by (simp add: rev_take)
  ultimately show ?thesis
    by (auto simp: valid_sw_def min_def)
qed

theorem SlidingWindow_fifo_witness:
  "(1::nat) \<le> 2
   \<and> (\<exists>w. appends [10, 20, 30 :: int] (SlidingWindow_init (int 2) hd) = Inr w
        \<and> length (que w) \<le> 2
        \<and> length (que w) = min (length [10, 20, 30 :: int]) 2
        \<and> (valid_sw w \<longleftrightarrow> 2 \<le> length [10, 20, 30 :: int])
        \<and> rev (que w) = drop (length [10, 20, 30 :: int] - 2) [10, 20, 30])"
  using SlidingWindow_fifo [of 2 "[10, 20, 30 :: int]" hd] by simp

section \<open>Properties of the mean\<close>

lemma foldl_arr_add_fin:
  "foldl arr_add (fin_array (a, b, c)) (map fin_array vs) =
     fin_array (a + sum_list (map fst vs), b + sum_list (map (\<lambda>v. fst (snd v)) vs),
                c + sum_list (map (\<lambda>v. snd (snd v)) vs))"
proof (induction vs arbitrary: a b c)
  case Nil
  then show ?case by simp
next
  case (Cons v vs)
  obtain x y z where v: "v = (x, y, z)" by (cases v)
  have "foldl arr_add (fin_array (a, b, c)) (map fin_array (v # vs)) =
        foldl arr_add (fin_array (a + x, b + y, c + z)) (map fin_array vs)"
    by (simp add: v)
  also have "\<dots> = fin_array (a + x + sum_list (map fst vs),
      b + y + sum_list (map (\<lambda>v. fst (snd v)) vs), c + z + sum_list (map (\<lambda>v. snd (snd v)) vs))"
    by (rule Cons.IH)
  finally show ?case
    by (simp add: v add.assoc)
qed

lemma np_mean_axis0_fin:
  assumes "vs \<noteq> []"
  shows "np_mean_axis0 (map fin_array vs) = fin_array (elementwise_mean vs)"
proof -
  have "np_sum_axis0 (map fin_array vs) =
        fin_array (sum_list (map fst vs), sum_list (map (\<lambda>v. fst (snd v)) vs),
                   sum_list (map (\<lambda>v. snd (snd v)) vs))"
    using foldl_arr_add_fin [of 0 0 0 vs] by (simp add: np_sum_axis0_def)
  then show ?thesis
    using assms by (simp add: np_mean_axis0_def elementwise_mean_def)
qed

text \<open>
  C9. A window whose contents are the finite vectors \<open>vs\<close> (at least one) and whose
  summarization method is the mean that \<^verbatim>\<open>reset()\<close> configures, \<^verbatim>\<open>np.mean(a, axis=0)\<close>, has as
  \<^verbatim>\<open>value\<close> the component-wise arithmetic mean of \<open>vs\<close>.
\<close>

theorem value_elementwise_mean:
  assumes "que w = map fin_array vs" and "vs \<noteq> []" and "method_sw w = np_mean_axis0"
  shows "value_sw w = fin_array (elementwise_mean vs)"
  using assms by (simp add: value_sw_def np_mean_axis0_fin)

theorem value_elementwise_mean_witness:
  "value_sw \<lparr>que = map fin_array [(1, 2, 3), (3, 4, 5)], wsize = 2, method_sw = np_mean_axis0\<rparr>
     = fin_array (2, 3, 4)"
  using value_elementwise_mean
    [of "\<lparr>que = map fin_array [(1, 2, 3), (3, 4, 5)], wsize = 2, method_sw = np_mean_axis0\<rparr>"
        "[(1, 2, 3), (3, 4, 5)]"]
  by (simp add: elementwise_mean_def)

section \<open>Properties of GroundDetector\<close>

lemma check_condition_None: "check_condition None now self = (Inl AttributeError, self)"
  by (simp add: check_condition_def split: option.splits)

lemma detect_failed_lookup:
  assumes "check_ground_method self = Tf_2_method" and "tf_lookup_position lookup = None"
  shows "detect lookup now self = (Inl AttributeError, self)"
  using assms by (simp add: detect_def tf_2_method_def check_condition_None)

lemma init_simps:
  "check_ground_method GroundDetector_init = Tf_2_method"
  "query_ground_position_method GroundDetector_init = Query_last_position"
  "last_position GroundDetector_init = None"
  "reference_velocity GroundDetector_init = None"
  by (simp_all add: GroundDetector_init_def reset_def Let_def)

lemma divergence_branch:
  assumes "reference_velocity self = Some ref"
    and "last_position self = Some lp" and "last_time self = Some lt"
    and "\<not> np_isclose (now - lt) 0 (1 / 10000)"
    and "append_sw (arr_div (arr_sub (np_array p) lp) (Fin (now - lt))) (trending_velocity self)
           = Inr w"
  shows "check_condition (Some p) now self =
     (Inr (f_less (np_dot (arr_div ref (linalg_norm ref))
                          (arr_div (value_sw w) (linalg_norm (value_sw w))))
                  DIRECTION_TOLERANCE),
      self\<lparr>last_position := Some (np_array p), last_time := Some now, trending_velocity := w\<rparr>)"
  using assms by (simp add: check_condition_def Let_def)

lemma norm3_zero_iff: "norm3 v = 0 \<longleftrightarrow> v = (0, 0, 0)"
proof -
  obtain a b c where v: "v = (a, b, c)" by (cases v)
  have "a * a + b * b + c * c = 0 \<longleftrightarrow> a = 0 \<and> b = 0 \<and> c = 0"
    by (smt (verit) mult_eq_0_iff zero_le_square add_nonneg_eq_0_iff add_nonneg_nonneg)
  then show ?thesis
    by (simp add: v norm3_def)
qed

lemma linalg_norm_fin: "linalg_norm (fin_array v) = Fin (norm3 v)"
proof -
  obtain a b c where v: "v = (a, b, c)" by (cases v)
  have "0 \<le> a * a + b * b + c * c" by (simp add: add_nonneg_nonneg)
  then show ?thesis by (simp add: v norm3_def)
qed

lemma normalised_dot:
  "f_less (np_dot (arr_div (fin_array r) (linalg_norm (fin_array r)))
                  (arr_div (fin_array t) (linalg_norm (fin_array t)))) (Fin x)
   \<longleftrightarrow> r \<noteq> (0, 0, 0) \<and> t \<noteq> (0, 0, 0) \<and> cosine_similarity r t < x"
proof -
  obtain a b c where r: "r = (a, b, c)" by (cases r)
  obtain d e f where t: "t = (d, e, f)" by (cases t)
  show ?thesis
  proof (cases "norm3 r = 0")
    case True
    then have "r = (0, 0, 0)" by (simp add: norm3_zero_iff)
    then show ?thesis
      using True by (simp add: linalg_norm_fin) (simp add: t)
  next
    case nr: False
    show ?thesis
    proof (cases "norm3 t = 0")
      case True
      then have "t = (0, 0, 0)" by (simp add: norm3_zero_iff)
      then show ?thesis
        using True by (simp add: linalg_norm_fin) (simp add: r)
    next
      case nt: False
      have "np_dot (arr_div (fin_array r) (Fin (norm3 r))) (arr_div (fin_array t) (Fin (norm3 t)))
            = Fin (cosine_similarity r t)"
        using nr nt by (simp add: r t cosine_similarity_def field_simps)
      then show ?thesis
        using nr nt by (simp add: linalg_norm_fin norm3_zero_iff)
    qed
  qed
qed

lemma warmup_inv_reset:
  "check_ground_method self = Tf_2_method \<Longrightarrow> warmup_inv 0 (reset self)"
  by (simp add: warmup_inv_def reset_def SlidingWindow_init_def)

lemma append_sw_cases:
  assumes "0 < wsize w"
  shows "\<exists>w'. append_sw v w = Inr w' \<and> wsize w' = wsize w \<and> method_sw w' = method_sw w
     \<and> length (que w') \<le> Suc (length (que w))
     \<and> (que w' = v # que w \<or> que w' = v # butlast (que w))"
  using assms by (cases "que w") (auto simp: append_sw_def)

lemma warmup_step:
  assumes "warmup_inv k self" and "k < 10"
  shows "\<exists>self'. detect (Transform p) now self = (Inr False, self') \<and> warmup_inv (Suc k) self'"
proof (cases "last_position self")
  case None
  then show ?thesis
    using assms by (auto simp: detect_def tf_2_method_def check_condition_def warmup_inv_def)
next
  case (Some lp)
  with assms(1) obtain lt where lt: "last_time self = Some lt"
    by (auto simp: warmup_inv_def)
  show ?thesis
  proof (cases "np_isclose (now - lt) 0 (1 / 10000)")
    case True
    then show ?thesis
      using assms Some lt
      by (auto simp: detect_def tf_2_method_def check_condition_def warmup_inv_def)
  next
    case False
    let ?v = "arr_div (arr_sub (np_array p) lp) (Fin (now - lt))"
    have "0 < wsize (trending_velocity self)"
      using assms(1) by (simp add: warmup_inv_def ROLLING_AVERAGE_WINDOW_def)
    from append_sw_cases [OF this, of ?v] obtain w' where
      w': "append_sw ?v (trending_velocity self) = Inr w'"
        "wsize w' = wsize (trending_velocity self)"
        "length (que w') \<le> Suc (length (que (trending_velocity self)))"
      by blast
    show ?thesis
      using assms Some lt False w'
      by (auto simp: detect_def tf_2_method_def check_condition_def warmup_inv_def Let_def
          valid_sw_def SKIP_SAMPLES_COUNT_def ROLLING_AVERAGE_WINDOW_def)
  qed
qed

lemma warmup_calls:
  assumes "warmup_inv k self" and "i < length samples" and "k + i < 10"
  shows "fst (detect_calls (map (\<lambda>(p, t). (Transform p, t)) samples) self) ! i = Inr False"
  using assms
proof (induction samples arbitrary: k self i)
  case Nil
  then show ?case by simp
next
  case (Cons s samples)
  obtain p t where s: "s = (p, t)" by (cases s)
  from Cons.prems have "k < 10" by simp
  from warmup_step [OF Cons.prems(1) this, of p t] obtain self' where
    step: "detect (Transform p) t self = (Inr False, self')" and inv: "warmup_inv (Suc k) self'"
    by blast
  show ?case
  proof (cases i)
    case 0
    then show ?thesis using s step by (simp split: prod.splits)
  next
    case (Suc j)
    with Cons.prems have "j < length samples" "Suc k + j < 10" by simp_all
    from Cons.IH [OF inv this] show ?thesis
      using s step Suc by (auto split: prod.splits)
  qed
qed

section \<open>Evaluation of the example runs\<close>

lemmas run_simps = detect_def tf_2_method_def check_condition_def
  Let_def np_isclose_def np_array_def append_sw_def valid_sw_def value_sw_def
  np_mean_axis0_def np_sum_axis0_def f_sub_def
  SKIP_SAMPLES_COUNT_def ROLLING_AVERAGE_WINDOW_def DIRECTION_TOLERANCE_def

lemma descent_run:
  "detect_calls descent GroundDetector_init = (replicate 11 (Inr False), after_descent)"
  by (simp add: descent_def sample_def after_descent_def GroundDetector_init_def reset_def
      SlidingWindow_init_def run_simps numeral_eq_Suc)

lemma detect_calls_append:
  "detect_calls (xs @ ys) self =
     (fst (detect_calls xs self) @ fst (detect_calls ys (snd (detect_calls xs self))),
      snd (detect_calls ys (snd (detect_calls xs self))))"
  by (induction xs arbitrary: self) (auto split: prod.splits)

lemma sqrt_25 [simp]: "sqrt 25 = 5"
  by (rule real_sqrt_unique) simp_all

lemma sqrt_16 [simp]: "sqrt 16 = 4"
  by (rule real_sqrt_unique) simp_all

lemma sqrt_fracs:
  "sqrt (16 / 25) = 4 / 5" "sqrt (9 / 25) = 3 / 5" "sqrt (4 / 25) = 2 / 5" "sqrt (1 / 25) = 1 / 5"
  by (simp_all add: real_sqrt_divide)

lemma slip_run:
  "fst (detect_calls slip after_descent) = [Inr True, Inr False]"
  by (simp add: slip_def sample_def after_descent_def run_simps numeral_eq_Suc)

lemma halt_run:
  "fst (detect_calls halt after_descent) = replicate 5 (Inr False)"
  by (simp add: halt_def sample_def after_descent_def run_simps numeral_eq_Suc sqrt_fracs)

lemma halt_state:
  "value_sw (trending_velocity (snd (detect_calls halt after_descent))) = fin_array (0, 0, 0)"
  by (simp add: halt_def sample_def after_descent_def run_simps numeral_eq_Suc sqrt_fracs)

lemma wobble_run:
  "detect_calls wobble GroundDetector_init = (replicate 11 (Inr False), after_wobble)"
  by (simp add: wobble_def sample_def after_wobble_def GroundDetector_init_def reset_def
      SlidingWindow_init_def run_simps numeral_eq_Suc)

lemma sqrt_25_16: "sqrt (25 / 16) = 5 / 4"
  by (simp add: real_sqrt_divide)

lemma wobble_next:
  "detect (Transform (Vector3 (Fin 0) (Fin 0) (Fin (-11)))) 11 after_wobble =
     (Inr True,
      after_wobble
        \<lparr>last_position := Some (fin_array (0, 0, -11)), last_time := Some 11,
         trending_velocity :=
           \<lparr>que = [fin_array (0, 0, -1), fin_array (0, 0, -1), fin_array (0, 0, -1),
                   fin_array (0, 0, -1), fin_array (- (15 / 4), 0, -1)],
            wsize = 5, method_sw = np_mean_axis0\<rparr>\<rparr>)"
  by (simp add: after_wobble_def run_simps numeral_eq_Suc sqrt_25_16)

lemma wobble_last:
  "fst (detect_calls [sample 0 (-11) 11] after_wobble) = [Inr True]"
  "hd (que (trending_velocity (snd (detect_calls [sample 0 (-11) 11] after_wobble))))
     = fin_array (0, 0, -1)"
  by (simp_all add: sample_def wobble_next)

section \<open>The divergence check\<close>

lemma norm3_scale3: "0 \<le> c \<Longrightarrow> norm3 (scale3 c r) = c * norm3 r"
proof -
  assume c: "0 \<le> c"
  obtain x y z where r: "r = (x, y, z)" by (cases r)
  have "dot3 (scale3 c r) (scale3 c r) = c\<^sup>2 * dot3 r r"
    by (simp add: r power2_eq_square algebra_simps)
  then show ?thesis
    using c by (simp add: norm3_def real_sqrt_mult)
qed

lemma dot3_scale3: "dot3 r (scale3 c r) = c * dot3 r r"
  by (cases r) (simp add: algebra_simps)

lemma cosine_same_direction:
  assumes "r \<noteq> (0, 0, 0)" and "0 < c"
  shows "cosine_similarity r (scale3 c r) = 1"
proof -
  have n: "norm3 r \<noteq> 0" using assms(1) by (simp add: norm3_zero_iff)
  have "0 \<le> dot3 r r" by (cases r) (simp add: add_nonneg_nonneg)
  then have "norm3 r * norm3 r = dot3 r r" by (simp add: norm3_def)
  then have "cosine_similarity r (scale3 c r) = (c * (norm3 r * norm3 r)) / (norm3 r * (c * norm3 r))"
    using assms(2) by (simp add: cosine_similarity_def norm3_scale3 dot3_scale3)
  then show ?thesis
    using n assms(2) by simp
qed

lemma mean_same_direction:
  assumes "cs \<noteq> []"
  shows "elementwise_mean (map (\<lambda>c. scale3 c r) cs) = scale3 (sum_list cs / real (length cs)) r"
proof -
  obtain x y z where r: "r = (x, y, z)" by (cases r)
  have "sum_list (map fst (map (\<lambda>c. scale3 c r) cs)) = sum_list cs * x"
    "sum_list (map (\<lambda>v. fst (snd v)) (map (\<lambda>c. scale3 c r) cs)) = sum_list cs * y"
    "sum_list (map (\<lambda>v. snd (snd v)) (map (\<lambda>c. scale3 c r) cs)) = sum_list cs * z"
    by (induction cs) (simp_all add: r algebra_simps)
  then show ?thesis
    by (simp add: elementwise_mean_def r)
qed

lemma sum_list_pos:
  fixes cs :: "real list"
  assumes "cs \<noteq> []" and "\<forall>c\<in>set cs. 0 < c"
  shows "0 < sum_list cs"
  using assms by (induction cs) (auto intro: add_pos_nonneg simp: sum_list_nonneg less_imp_le)

text \<open>
  C6, as the code has it. A call of \<^verbatim>\<open>detect()\<close> whose sample is accepted (the time step is
  not close to zero and the velocity enters the window, giving \<open>w\<close>) while the reference
  velocity is the finite vector \<open>r\<close> and the value of the window is the finite vector \<open>t\<close>:
  the call returns true exactly when both vectors are non-zero and their cosine similarity,
  \<open>dot3 r t / (norm3 r * norm3 t)\<close>, is strictly below 0.95. The call returns false when \<open>t\<close>
  is a positive multiple of \<open>r\<close>, and so when every velocity that the window holds after the
  sample has entered is a positive multiple of \<open>r\<close>.
\<close>

theorem divergence_iff_cosine:
  assumes "check_ground_method self = Tf_2_method"
    and "reference_velocity self = Some (fin_array r)"
    and "last_position self = Some lp" and "last_time self = Some lt"
    and "\<not> np_isclose (now - lt) 0 (1 / 10000)"
    and "append_sw (arr_div (arr_sub (np_array p) lp) (Fin (now - lt))) (trending_velocity self)
           = Inr w"
    and "value_sw w = fin_array t"
  shows "fst (detect (Transform p) now self)
           = Inr (r \<noteq> (0, 0, 0) \<and> t \<noteq> (0, 0, 0) \<and> cosine_similarity r t < 95 / 100)
       \<and> ((\<exists>c>0. t = scale3 c r) \<longrightarrow> fst (detect (Transform p) now self) = Inr False)
       \<and> (method_sw w = np_mean_axis0 \<and> que w = map (\<lambda>c. fin_array (scale3 c r)) cs
            \<and> (\<forall>c\<in>set cs. 0 < c) \<longrightarrow> fst (detect (Transform p) now self) = Inr False)"
proof -
  have res: "fst (detect (Transform p) now self)
           = Inr (r \<noteq> (0, 0, 0) \<and> t \<noteq> (0, 0, 0) \<and> cosine_similarity r t < 95 / 100)"
    using assms(1,7) divergence_branch [OF assms(2-6)]
    by (simp add: detect_def tf_2_method_def DIRECTION_TOLERANCE_def normalised_dot)
  have same: "fst (detect (Transform p) now self) = Inr False" if "0 < c" and "t = scale3 c r" for c
  proof (cases "r = (0, 0, 0)")
    case True
    then show ?thesis using res by simp
  next
    case False
    then show ?thesis
      using res that by (simp add: cosine_same_direction)
  qed
  have "fst (detect (Transform p) now self) = Inr False"
    if m: "method_sw w = np_mean_axis0" and q: "que w = map (\<lambda>c. fin_array (scale3 c r)) cs"
      and pos: "\<forall>c\<in>set cs. 0 < c"
  proof -
    have ne: "cs \<noteq> []"
    proof
      assume "cs = []"
      with q have "que w = []" by simp
      moreover have "que w \<noteq> []"
        using assms(6) by (auto simp: append_sw_def split: if_splits list.splits)
      ultimately show False by simp
    qed
    have "value_sw w = np_mean_axis0 (map fin_array (map (\<lambda>c. scale3 c r) cs))"
      using m q by (simp add: value_sw_def comp_def)
    also have "\<dots> = fin_array (scale3 (sum_list cs / real (length cs)) r)"
      using ne np_mean_axis0_fin [of "map (\<lambda>c. scale3 c r) cs"]
      by (simp add: mean_same_direction)
    finally have "fin_array t = fin_array (scale3 (sum_list cs / real (length cs)) r)"
      using assms(7) by simp
    then have "t = scale3 (sum_list cs / real (length cs)) r"
      by (cases t, cases "scale3 (sum_list cs / real (length cs)) r") simp
    moreover have "0 < sum_list cs / real (length cs)"
      using ne pos by (simp add: sum_list_pos)
    ultimately show ?thesis using same by blast
  qed
  with res same show ?thesis by blast
qed

theorem divergence_iff_cosine_witness:
  "fst (detect (Transform (Vector3 (Fin 0) (Fin 0) (Fin (-11)))) 11 after_descent) = Inr False"
proof -
  let ?w = "\<lparr>que = replicate 5 (fin_array (0, 0, -1)), wsize = 5, method_sw = np_mean_axis0\<rparr>"
  have 1: "check_ground_method after_descent = Tf_2_method"
    and 2: "reference_velocity after_descent = Some (fin_array (0, 0, -1))"
    and 3: "last_position after_descent = Some (fin_array (0, 0, -10))"
    and 4: "last_time after_descent = Some 10"
    by (simp_all add: after_descent_def)
  have 5: "\<not> np_isclose (11 - 10) 0 (1 / 10000)"
    by (simp add: np_isclose_def)
  have 6: "append_sw (arr_div (arr_sub (np_array (Vector3 (Fin 0) (Fin 0) (Fin (-11))))
                (fin_array (0, 0, -10))) (Fin (11 - 10))) (trending_velocity after_descent)
           = Inr ?w"
    by (simp add: after_descent_def append_sw_def np_array_def f_sub_def numeral_eq_Suc)
  have 7: "value_sw ?w = fin_array (0, 0, -1)"
    by (simp add: value_sw_def np_mean_axis0_def np_sum_axis0_def numeral_eq_Suc)
  have "(\<exists>c>0. (0, 0, -1) = scale3 c (0, 0, -1 :: real))"
    by (rule exI [of _ 1]) simp
  then show ?thesis
    using divergence_iff_cosine [OF 1 2 3 4 5 6 7] by blast
qed

text \<open>
  C6, as stated, fails in its last part: a velocity of the direction of the reference can
  make \<^verbatim>\<open>detect()\<close> return true while the window still holds a velocity of another
  direction. After \<open>wobble\<close> the reference velocity is (0, 0, -1); the twelfth call brings the
  velocity (0, 0, -1) into the window, whose mean is then (-0.75, 0, -1), of cosine
  similarity 0.8 with the reference, and the call returns true.
\<close>

theorem same_direction_counterexample:
  "reference_velocity (snd (detect_calls wobble GroundDetector_init))
     = Some (fin_array (0, 0, -1))
   \<and> hd (que (trending_velocity
         (snd (detect_calls (wobble @ [sample 0 (-11) 11]) GroundDetector_init))))
       = fin_array (0, 0, -1)
   \<and> fst (detect_calls (wobble @ [sample 0 (-11) 11]) GroundDetector_init)
       = replicate 11 (Inr False) @ [Inr True]"
proof -
  have "reference_velocity after_wobble = Some (fin_array (0, 0, -1))"
    by (simp add: after_wobble_def)
  then show ?thesis
    by (simp only: detect_calls_append wobble_run wobble_last fst_conv snd_conv simp_thms)
qed

lemma f_mul_NaN: "f_mul a NaN = NaN"
  by (cases a) simp_all

lemma np_dot_NaN: "np_dot v (Array3 NaN NaN NaN) = NaN"
  by (cases v) (simp add: f_mul_NaN)

text \<open>
  C4, as the code has it. A call of \<^verbatim>\<open>detect()\<close> whose sample is accepted while a reference
  velocity is set and the value of the window is the zero vector does not raise: the
  normalization divides by zero, which gives NaN in every entry, the dot product is NaN, the
  comparison with 0.95 is false, and the call returns false.
\<close>

theorem zero_trending_not_detected:
  assumes "check_ground_method self = Tf_2_method"
    and "reference_velocity self = Some ref"
    and "last_position self = Some lp" and "last_time self = Some lt"
    and "\<not> np_isclose (now - lt) 0 (1 / 10000)"
    and "append_sw (arr_div (arr_sub (np_array p) lp) (Fin (now - lt))) (trending_velocity self)
           = Inr w"
    and "value_sw w = fin_array (0, 0, 0)"
  shows "detect (Transform p) now self =
     (Inr False,
      self\<lparr>last_position := Some (np_array p), last_time := Some now, trending_velocity := w\<rparr>)"
proof -
  have "arr_div (fin_array (0, 0, 0)) (linalg_norm (fin_array (0, 0, 0))) = Array3 NaN NaN NaN"
    by simp
  then show ?thesis
    using assms(1,7) divergence_branch [OF assms(2-6)]
    by (simp add: detect_def tf_2_method_def np_dot_NaN del: fin_array.simps)
qed

theorem zero_trending_not_detected_witness:
  "detect (Transform (Vector3 (Fin 0) (Fin 0) (Fin (-6)))) 11 after_descent =
     (Inr False,
      after_descent
        \<lparr>last_position := Some (fin_array (0, 0, -6)), last_time := Some 11,
         trending_velocity :=
           \<lparr>que = fin_array (0, 0, 4) # replicate 4 (fin_array (0, 0, -1)), wsize = 5,
            method_sw = np_mean_axis0\<rparr>\<rparr>)"
proof -
  let ?w = "\<lparr>que = fin_array (0, 0, 4) # replicate 4 (fin_array (0, 0, -1)), wsize = 5,
            method_sw = np_mean_axis0\<rparr>"
  have 1: "check_ground_method after_descent = Tf_2_method"
    and 2: "reference_velocity after_descent = Some (fin_array (0, 0, -1))"
    and 3: "last_position after_descent = Some (fin_array (0, 0, -10))"
    and 4: "last_time after_descent = Some 10"
    by (simp_all add: after_descent_def)
  have 5: "\<not> np_isclose (11 - 10) 0 (1 / 10000)"
    by (simp add: np_isclose_def)
  have 6: "append_sw (arr_div (arr_sub (np_array (Vector3 (Fin 0) (Fin 0) (Fin (-6))))
                (fin_array (0, 0, -10))) (Fin (11 - 10))) (trending_velocity after_descent)
           = Inr ?w"
    by (simp add: after_descent_def append_sw_def np_array_def f_sub_def numeral_eq_Suc)
  have 7: "value_sw ?w = fin_array (0, 0, 0)"
    by (simp add: value_sw_def np_mean_axis0_def np_sum_axis0_def numeral_eq_Suc)
  show ?thesis
    using zero_trending_not_detected [OF 1 2 3 4 5 6 7] by (simp add: np_array_def)
qed

text \<open>
  C4, as stated, fails: after the steady descent has set the reference velocity, five
  samples at the same position make the value of the window the zero vector, and the
  sixteenth call returns false as all the calls before it, not true.
\<close>

theorem zero_trending_counterexample:
  "reference_velocity (snd (detect_calls descent GroundDetector_init)) = Some (fin_array (0, 0, -1))
   \<and> value_sw (trending_velocity (snd (detect_calls (descent @ halt) GroundDetector_init)))
       = fin_array (0, 0, 0)
   \<and> fst (detect_calls (descent @ halt) GroundDetector_init) = replicate 16 (Inr False)"
proof -
  have "replicate 11 (Inr False) @ replicate 5 (Inr False)
          = (replicate 16 (Inr False) :: (error + bool) list)"
    by (simp add: replicate_add [symmetric])
  then show ?thesis
    by (simp only: detect_calls_append descent_run halt_run halt_state fst_conv snd_conv)
      (simp add: after_descent_def)
qed

section \<open>Claims about the detector\<close>

text \<open>
  C1, evaluated: on a new instance, a call of \<^verbatim>\<open>detect()\<close> whose lookup raises one of the three
  exceptions that \<^verbatim>\<open>_tf_lookup_position\<close> catches does not return a boolean. The \<^verbatim>\<open>None\<close> that
  the lookup returns reaches \<^verbatim>\<open>_check_condition\<close>, and \<^verbatim>\<open>new_position.x\<close> raises AttributeError.
  The detector is left as it was.
\<close>

theorem detect_failed_lookup_raises:
  "detect LookupException now GroundDetector_init = (Inl AttributeError, GroundDetector_init)
   \<and> detect ConnectivityException now GroundDetector_init
       = (Inl AttributeError, GroundDetector_init)
   \<and> detect ExtrapolationException now GroundDetector_init
       = (Inl AttributeError, GroundDetector_init)"
  by (simp add: detect_failed_lookup init_simps)

text \<open>
  C2, evaluated: on a new instance, with the strategy that the constructor selects, the
  steady descent followed by \<open>slip\<close> makes the twelfth call of \<^verbatim>\<open>detect()\<close> return true and the
  thirteenth return false, with no \<^verbatim>\<open>reset()\<close> in between.
\<close>

theorem detect_true_then_false:
  "fst (detect_calls (descent @ slip) GroundDetector_init)
     = replicate 11 (Inr False) @ [Inr True, Inr False]"
  by (simp only: detect_calls_append descent_run slip_run fst_conv snd_conv)

text \<open>
  C3. From the state that \<^verbatim>\<open>reset()\<close> leaves, with the strategy that the constructor selects,
  window size 5 and skip count 5: for every sequence of position samples with strictly
  increasing times, each of the first 5 + 5 calls of \<^verbatim>\<open>detect()\<close> returns false.
\<close>

theorem detect_false_during_warmup:
  assumes "check_ground_method self = Tf_2_method"
    and "sorted_wrt (<) (map snd samples)"
    and "i < length samples"
    and "i < nat ROLLING_AVERAGE_WINDOW + nat SKIP_SAMPLES_COUNT"
  shows "fst (detect_calls (map (\<lambda>(p, t). (Transform p, t)) samples) (reset self)) ! i = Inr False"
proof -
  have "0 + i < 10"
    using assms(4) by (simp add: ROLLING_AVERAGE_WINDOW_def SKIP_SAMPLES_COUNT_def)
  with warmup_inv_reset [OF assms(1)] assms(3) show ?thesis
    by (rule warmup_calls)
qed

theorem detect_false_during_warmup_witness:
  "fst (detect_calls
         (map (\<lambda>(p, t). (Transform p, t))
            [(Vector3 (Fin 0) (Fin 0) (Fin 0), 0), (Vector3 (Fin 0) (Fin 0) (Fin (-1)), 1),
             (Vector3 (Fin 0) (Fin 0) (Fin (-2)), 2)])
         (reset GroundDetector_init)) ! 2 = Inr False"
proof -
  let ?samples = "[(Vector3 (Fin 0) (Fin 0) (Fin 0), 0::real),
    (Vector3 (Fin 0) (Fin 0) (Fin (-1)), 1), (Vector3 (Fin 0) (Fin 0) (Fin (-2)), 2)]"
  have 1: "check_ground_method GroundDetector_init = Tf_2_method"
    by (simp add: init_simps)
  have 2: "sorted_wrt (<) (map snd ?samples)"
    by simp
  have 3: "2 < length ?samples"
    by simp
  have 4: "(2::nat) < nat ROLLING_AVERAGE_WINDOW + nat SKIP_SAMPLES_COUNT"
    by (simp add: ROLLING_AVERAGE_WINDOW_def SKIP_SAMPLES_COUNT_def)
  show ?thesis
    by (rule detect_false_during_warmup [OF 1 2 3 4])
qed

text \<open>
  C7. When a position and a time are stored and the new reading of the clock differs from
  the stored time by at most the tolerance \<open>1e-4\<close>, \<^verbatim>\<open>np.isclose\<close> holds, and the call returns
  false and leaves the whole detector as it was: last position and time, window, skip
  counter and reference velocity.
\<close>

theorem small_delta_t_discarded:
  assumes "last_position self = Some lp" and "last_time self = Some lt"
    and "\<bar>now - lt\<bar> \<le> 1 / 10000"
  shows "np_isclose (now - lt) 0 (1 / 10000)
       \<and> check_condition (Some p) now self = (Inr False, self)
       \<and> (check_ground_method self = Tf_2_method
            \<longrightarrow> detect (Transform p) now self = (Inr False, self))"
  using assms by (simp add: detect_def tf_2_method_def check_condition_def np_isclose_def Let_def)

theorem small_delta_t_discarded_witness:
  "detect (Transform (Vector3 (Fin 0) (Fin 0) (Fin (-11)))) (10 + 1 / 20000) after_descent
     = (Inr False, after_descent)"
proof -
  have "last_position after_descent = Some (fin_array (0, 0, -10))"
    and "last_time after_descent = Some 10"
    and "check_ground_method after_descent = Tf_2_method"
    by (simp_all add: after_descent_def)
  moreover have "\<bar>(10 + 1 / 20000) - 10\<bar> \<le> (1 / 10000 :: real)"
    by simp
  ultimately show ?thesis
    using small_delta_t_discarded
      [of after_descent "fin_array (0, 0, -10)" 10 "10 + 1 / 20000"
          "Vector3 (Fin 0) (Fin 0) (Fin (-11))"]
    by blast
qed

lemma failed_lookups_keep:
  assumes "check_ground_method self = Tf_2_method"
    and "\<forall>i\<in>set inputs. tf_lookup_position (fst i) = None"
  shows "detect_calls inputs self = (replicate (length inputs) (Inl AttributeError), self)"
  using assms(2)
proof (induction inputs)
  case Nil
  then show ?case by simp
next
  case (Cons i inputs)
  obtain lookup now where i: "i = (lookup, now)" by (cases i)
  with Cons.prems have "detect lookup now self = (Inl AttributeError, self)"
    using assms(1) by (simp add: detect_failed_lookup)
  then show ?case
    using Cons i by simp
qed

text \<open>
  C10. With the query that the constructor selects (the last position), \<^verbatim>\<open>ground_position\<close>
  raises TypeError instead of returning a Point while no position is stored: on a new
  instance, after \<^verbatim>\<open>reset()\<close>, and after any number of calls of \<^verbatim>\<open>detect()\<close> whose lookups
  failed.
\<close>

theorem ground_position_unset_fails:
  "ground_position lookup GroundDetector_init = Inl TypeError
   \<and> (query_ground_position_method self = Query_last_position
        \<longrightarrow> ground_position lookup (reset self) = Inl TypeError)
   \<and> (query_ground_position_method self = Query_last_position
        \<and> check_ground_method self = Tf_2_method \<and> last_position self = None
        \<and> (\<forall>i\<in>set inputs. tf_lookup_position (fst i) = None)
        \<longrightarrow> ground_position lookup (snd (detect_calls inputs self)) = Inl TypeError)"
  by (auto simp: ground_position_def query_ground_position_def init_simps reset_def
      failed_lookups_keep)

theorem ground_position_unset_fails_witness:
  "ground_position (Transform (Vector3 (Fin 0) (Fin 0) (Fin 0)))
     (snd (detect_calls [(LookupException, 0)] GroundDetector_init)) = Inl TypeError
   \<and> ground_position (Transform (Vector3 (Fin 0) (Fin 0) (Fin 0))) (reset GroundDetector_init)
       = Inl TypeError"
  using ground_position_unset_fails
    [of "Transform (Vector3 (Fin 0) (Fin 0) (Fin 0))" GroundDetector_init "[(LookupException, 0)]"]
  by (simp add: init_simps)

section \<open>The reference velocity and the arrays\<close>

lemmas store_simps = new_array_def deepcopy_def idiv_array_def

lemma append_sw_que:
  assumes "append_sw v w = Inr w'"
  shows "set (que w') \<subseteq> insert v (set (que w))" and "wsize w' = wsize w"
    and "method_sw w' = method_sw w"
  using assms
  by (auto simp: append_sw_def split: if_splits list.splits dest: in_set_butlastD)

lemma check_condition_r_frame:
  assumes "check_condition_r np now self = (res, self')"
  shows "next_ref (store self) \<le> next_ref (store self')"
    and "\<forall>a < next_ref (store self). cells (store self') a = cells (store self) a"
    and "reference_velocity_r self = Some a \<Longrightarrow> reference_velocity_r self' = Some a"
  using assms
  by (auto simp: check_condition_r_def store_simps Let_def
      split: option.splits sum.splits if_splits prod.splits)

lemma refs_allocated_step:
  assumes "check_condition_r np now self = (res, self')" and "refs_allocated self"
  shows "refs_allocated self'"
  using assms
  by (auto simp: check_condition_r_def store_simps Let_def refs_allocated_def less_Suc_eq
      split: option.splits sum.splits if_splits prod.splits
      dest!: append_sw_que(1))

lemma append_sw_deref:
  assumes "\<forall>a\<in>set (que w). c' a = c a" and "c' m = v"
  shows "append_sw v (deref_window c w) =
     (case append_sw m w of Inl e \<Rightarrow> Inl e | Inr w' \<Rightarrow> Inr (deref_window c' w'))"
proof -
  have "map c' (que w) = map c (que w)"
    using assms(1) by simp
  moreover have "map c' (butlast (que w)) = map c (butlast (que w))"
    using assms(1) by (auto dest: in_set_butlastD)
  ultimately show ?thesis
    using assms(2)
    by (auto simp: append_sw_def deref_window_def map_butlast split: list.splits)
qed

lemma deref_window_cong:
  assumes "\<forall>a\<in>set (que w). c' a = c a"
  shows "deref_window c' w = deref_window c w"
  using assms by (simp add: deref_window_def)

lemma valid_sw_deref [simp]: "valid_sw (deref_window c w) = valid_sw w"
  by (simp add: valid_sw_def deref_window_def)

lemma value_sw_deref:
  "method_sw w = np_mean_axis0_refs \<Longrightarrow> value_sw (deref_window (cells st) w) = value_sw w st"
  by (simp add: value_sw_def deref_window_def np_mean_axis0_refs_def)

lemma value_sw_refs_cong:
  assumes "method_sw w = np_mean_axis0_refs" and "\<forall>a\<in>set (que w). cells st' a = cells st a"
  shows "value_sw w st' = value_sw w st"
proof -
  have m: "map (cells st') (que w) = map (cells st) (que w)"
    using assms(2) by simp
  show ?thesis
    by (simp only: value_sw_def assms(1) np_mean_axis0_refs_def m)
qed

text \<open>Normal forms of the value-level method on an accepted sample.\<close>

lemma append_error_branch:
  assumes "last_position self = Some lp" and "last_time self = Some lt"
    and "\<not> np_isclose (now - lt) 0 (1 / 10000)"
    and "append_sw (arr_div (arr_sub (np_array p) lp) (Fin (now - lt))) (trending_velocity self)
           = Inl e"
  shows "check_condition (Some p) now self =
     (Inl e, self\<lparr>last_position := Some (np_array p), last_time := Some now\<rparr>)"
  using assms by (simp add: check_condition_def Let_def)

lemma baseline_branch:
  assumes "reference_velocity self = None"
    and "last_position self = Some lp" and "last_time self = Some lt"
    and "\<not> np_isclose (now - lt) 0 (1 / 10000)"
    and "append_sw (arr_div (arr_sub (np_array p) lp) (Fin (now - lt))) (trending_velocity self)
           = Inr w"
  shows "check_condition (Some p) now self =
     (Inr False,
      if valid_sw w then
        if samples_skipped self + 1 \<le> SKIP_SAMPLES_COUNT
        then self\<lparr>last_position := Some (np_array p), last_time := Some now,
                  trending_velocity := w, samples_skipped := samples_skipped self + 1\<rparr>
        else self\<lparr>last_position := Some (np_array p), last_time := Some now,
                  trending_velocity := w, samples_skipped := samples_skipped self + 1,
                  reference_velocity := Some (value_sw w)\<rparr>
      else self\<lparr>last_position := Some (np_array p), last_time := Some now,
                trending_velocity := w\<rparr>)"
  using assms by (simp add: check_condition_def Let_def)

lemma map_agree: "\<forall>a\<in>set xs. f a = g a \<Longrightarrow> map f xs = map g xs"
  by simp

lemma check_condition_refines:
  assumes "refs_allocated self"
    and "method_sw (trending_velocity_r self) = np_mean_axis0_refs"
  shows "check_condition np now (deref g self) =
     (fst (check_condition_r np now self), deref g (snd (check_condition_r np now self)))"
proof (cases np)
  case None
  then show ?thesis
    by (simp add: check_condition_None check_condition_r_def split: option.splits)
next
  case (Some p)
  define n where "n = next_ref (store self)"
  define c where "c = cells (store self)"
  define w where "w = trending_velocity_r self"
  let ?R = "check_condition_r (Some p) now self"
  have q: "\<forall>a\<in>set (que w). a < n"
    using assms(1) by (simp add: refs_allocated_def n_def w_def)
  have rf: "a < n" if "reference_velocity_r self = Some a" for a
    using assms(1) that by (simp add: refs_allocated_def n_def)
  have frame: "cells (store (snd ?R)) a = c a" if "a < n" for a
    using check_condition_r_frame(2) [of "Some p" now self "fst ?R" "snd ?R"] that
    by (simp add: n_def c_def)
  have dw: "deref_window (cells (store (snd ?R))) w = deref_window c w"
    using q frame by (intro deref_window_cong) auto
  have mo: "map_option (cells (store (snd ?R))) x = map_option c x"
    if "\<And>a. x = Some a \<Longrightarrow> a < n" for x
    using that frame by (cases x) auto
  have mref: "map_option (cells (store (snd ?R))) (reference_velocity_r self)
      = map_option c (reference_velocity_r self)"
    using rf by (intro mo)
  have "check_condition (Some p) now (deref g self) = (fst ?R, deref g (snd ?R))"
  proof (cases "last_position_r self")
    case None
    have "fst ?R = Inr False"
      and "last_position_r (snd ?R) = Some n"
      and "cells (store (snd ?R)) n = np_array p"
      and "last_time_r (snd ?R) = Some now"
      and "samples_skipped_r (snd ?R) = samples_skipped_r self"
      and "trending_velocity_r (snd ?R) = w"
      and "reference_velocity_r (snd ?R) = reference_velocity_r self"
      using None by (simp_all add: check_condition_r_def store_simps Let_def w_def n_def)
    then show ?thesis
      using None by (simp add: check_condition_def deref_def [of g "snd _"] dw mref)
        (simp add: deref_def c_def w_def)
  next
    case lp: (Some last_pos)
    then have lpn: "last_pos < n"
      using assms(1) by (simp add: refs_allocated_def n_def)
    have mlp: "cells (store (snd ?R)) last_pos = c last_pos"
      using lpn frame by simp
    show ?thesis
    proof (cases "last_time_r self")
      case None
      have "fst ?R = Inl TypeError"
        and "last_position_r (snd ?R) = Some last_pos"
        and "last_time_r (snd ?R) = None"
        and "samples_skipped_r (snd ?R) = samples_skipped_r self"
        and "trending_velocity_r (snd ?R) = w"
        and "reference_velocity_r (snd ?R) = reference_velocity_r self"
        using lp None by (simp_all add: check_condition_r_def store_simps Let_def w_def)
      then show ?thesis
        using lp None by (simp add: check_condition_def deref_def [of g "snd _"] dw mref mlp)
          (simp add: deref_def c_def w_def)
    next
      case lt: (Some lt)
      show ?thesis
      proof (cases "np_isclose (now - lt) 0 (1 / 10000)")
        case True
        have "fst ?R = Inr False"
          and "last_position_r (snd ?R) = Some last_pos"
          and "last_time_r (snd ?R) = Some lt"
          and "samples_skipped_r (snd ?R) = samples_skipped_r self"
          and "trending_velocity_r (snd ?R) = w"
          and "reference_velocity_r (snd ?R) = reference_velocity_r self"
          using lp lt True by (simp_all add: check_condition_r_def store_simps Let_def w_def)
        then show ?thesis
          using lp lt True
          by (simp add: check_condition_def deref_def [of g "snd _"] dw mref mlp)
            (simp add: deref_def c_def w_def Let_def)
      next
        case far: False
        define vel where "vel = arr_div (arr_sub (np_array p) (c last_pos)) (Fin (now - lt))"
        have V: "last_position (deref g self) = Some (c last_pos)"
          "last_time (deref g self) = Some lt"
          "trending_velocity (deref g self) = deref_window c w"
          "reference_velocity (deref g self) = map_option c (reference_velocity_r self)"
          "samples_skipped (deref g self) = samples_skipped_r self"
          using lp lt by (simp_all add: deref_def c_def w_def)
        have vel3: "cells (store (snd ?R)) (Suc (Suc n)) = vel"
          using lp lt far lpn [unfolded n_def]
          by (auto simp: check_condition_r_def store_simps Let_def n_def c_def vel_def
              split: sum.splits option.splits)
        have app: "append_sw vel (deref_window c w) =
            (case append_sw (Suc (Suc n)) w of
               Inl e \<Rightarrow> Inl e
             | Inr w' \<Rightarrow> Inr (deref_window (cells (store (snd ?R))) w'))"
          using q frame vel3 by (intro append_sw_deref) auto
        show ?thesis
        proof (cases "append_sw (Suc (Suc n)) w")
          case (Inl e)
          have "fst ?R = Inl e"
            and "last_position_r (snd ?R) = Some n"
            and "cells (store (snd ?R)) n = np_array p"
            and "last_time_r (snd ?R) = Some now"
            and "samples_skipped_r (snd ?R) = samples_skipped_r self"
            and "trending_velocity_r (snd ?R) = w"
            and "reference_velocity_r (snd ?R) = reference_velocity_r self"
            using lp lt far Inl [unfolded n_def w_def]
            by (simp_all add: check_condition_r_def store_simps Let_def w_def n_def)
          moreover have "check_condition (Some p) now (deref g self) =
              (Inl e, (deref g self)\<lparr>last_position := Some (np_array p), last_time := Some now\<rparr>)"
            using V(1,2) far app Inl
            by (intro append_error_branch) (simp_all add: V(3) vel_def)
          ultimately show ?thesis
            by (simp add: deref_def [of g "snd _"] dw mref)
              (simp add: deref_def c_def w_def)
        next
          case (Inr w')
          have app': "append_sw (arr_div (arr_sub (np_array p) (c last_pos)) (Fin (now - lt)))
               (trending_velocity (deref g self)) = Inr (deref_window (cells (store (snd ?R))) w')"
            using app Inr by (simp add: V(3) vel_def)
          have m': "method_sw w' = np_mean_axis0_refs"
            using append_sw_que(3) [OF Inr] assms(2) by (simp add: w_def)
          have qw': "\<forall>a\<in>set (que w'). a < Suc (Suc (Suc n))"
            using append_sw_que(1) [OF Inr] q by (auto simp: less_Suc_eq)
          let ?c' = "cells (store (snd ?R))"
          have qw2: "a = Suc (Suc n) \<or> a < n" if "a \<in> set (que w')" for a
            using append_sw_que(1) [OF Inr] q that by auto
          have agree: "?c' a = (if a = Suc (Suc n) then vel else c a)" if "a \<in> set (que w')" for a
            using append_sw_que(1) [OF Inr] q that frame vel3 by auto
          have upd: "last_position_r (snd ?R) = Some n" "cells (store (snd ?R)) n = np_array p"
            "last_time_r (snd ?R) = Some now" "trending_velocity_r (snd ?R) = w'"
            using lp lt far Inr [unfolded n_def w_def]
            by (auto simp: check_condition_r_def store_simps Let_def n_def
                split: option.splits)
          define st3 where "st3 = (store self)
            \<lparr>cells := c(n := np_array p, Suc n := arr_sub (np_array p) (c last_pos),
                       Suc (Suc n) := vel),
             next_ref := Suc (Suc (Suc n))\<rparr>"
          have agree3: "\<forall>a\<in>set (que w'). ?c' a = cells st3 a"
          proof
            fix a
            assume a: "a \<in> set (que w')"
            from qw2 [OF a] show "?c' a = cells st3 a"
            proof
              assume "a = Suc (Suc n)"
              then show ?thesis using agree [OF a] by (simp add: st3_def)
            next
              assume "a < n"
              then show ?thesis using agree [OF a] by (simp add: st3_def)
            qed
          qed
          have val: "value_sw (deref_window ?c' w') = value_sw w' st3"
          proof -
            have "value_sw (deref_window ?c' w') = value_sw w' (store (snd ?R))"
              using m' by (rule value_sw_deref)
            also have "\<dots> = value_sw w' st3"
              using m' agree3 by (rule value_sw_refs_cong)
            finally show ?thesis .
          qed
          show ?thesis
          proof (cases "reference_velocity_r self")
            case None
            have bb: "check_condition (Some p) now (deref g self) =
              (Inr False,
               if valid_sw w' then
                 if samples_skipped_r self + 1 \<le> SKIP_SAMPLES_COUNT
                 then (deref g self)\<lparr>last_position := Some (np_array p), last_time := Some now,
                        trending_velocity := deref_window ?c' w',
                        samples_skipped := samples_skipped_r self + 1\<rparr>
                 else (deref g self)\<lparr>last_position := Some (np_array p), last_time := Some now,
                        trending_velocity := deref_window ?c' w',
                        samples_skipped := samples_skipped_r self + 1,
                        reference_velocity := Some (value_sw (deref_window ?c' w'))\<rparr>
               else (deref g self)\<lparr>last_position := Some (np_array p), last_time := Some now,
                        trending_velocity := deref_window ?c' w'\<rparr>)"
              using baseline_branch [OF _ V(1,2) far app'] None by (simp add: V)
            show ?thesis
            proof (cases "valid_sw w'")
              case False
              have "fst ?R = Inr False"
                and "samples_skipped_r (snd ?R) = samples_skipped_r self"
                and "reference_velocity_r (snd ?R) = None"
                using lp lt far None False Inr [unfolded n_def w_def]
                by (simp_all add: check_condition_r_def store_simps Let_def)
              then show ?thesis
                using False upd None by (simp add: bb deref_def [of g "snd _"])
                  (simp add: deref_def)
            next
              case valid: True
              show ?thesis
              proof (cases "samples_skipped_r self + 1 \<le> SKIP_SAMPLES_COUNT")
                case True
                have "fst ?R = Inr False"
                  and "samples_skipped_r (snd ?R) = samples_skipped_r self + 1"
                  and "reference_velocity_r (snd ?R) = None"
                  using lp lt far None valid True Inr [unfolded n_def w_def]
                  by (simp_all add: check_condition_r_def store_simps Let_def)
                then show ?thesis
                  using valid True upd None by (simp add: bb deref_def [of g "snd _"])
                    (simp add: deref_def)
              next
                case False
                have "fst ?R = Inr False"
                  and "samples_skipped_r (snd ?R) = samples_skipped_r self + 1"
                  and "reference_velocity_r (snd ?R) = Some (Suc (Suc (Suc n)))"
                  and new: "cells (store (snd ?R)) (Suc (Suc (Suc n))) = value_sw w' st3"
                  using lp lt far None valid False Inr [unfolded n_def w_def] lpn [unfolded n_def]
                  by (simp_all add: check_condition_r_def store_simps Let_def n_def c_def
                      st3_def vel_def)
                moreover note val
                ultimately show ?thesis
                  using valid False upd None by (simp add: bb deref_def [of g "snd _"])
                    (simp add: deref_def)
              qed
            qed
          next
            case (Some ref)
            have refn: "ref < n"
              using Some by (rule rf)
            define rn where "rn = arr_div (c ref) (linalg_norm (c ref))"
            define st4 where
              "st4 = idiv_array (Suc (Suc (Suc n))) (linalg_norm (c ref)) (snd (deepcopy ref st3))"
            have val4: "value_sw w' st4 = value_sw w' st3"
              using m'
            proof (rule value_sw_refs_cong)
              show "\<forall>a\<in>set (que w'). cells st4 a = cells st3 a"
              proof
                fix a
                assume "a \<in> set (que w')"
                from qw2 [OF this] show "cells st4 a = cells st3 a"
                proof
                  assume "a = Suc (Suc n)"
                  then show ?thesis by (simp add: st4_def st3_def store_simps)
                next
                  assume "a < n"
                  then show ?thesis by (simp add: st4_def st3_def store_simps)
                qed
              qed
            qed
            have "fst ?R = Inr (f_less (np_dot rn (arr_div (value_sw w' st4)
                      (linalg_norm (value_sw w' st4)))) DIRECTION_TOLERANCE)"
              and "samples_skipped_r (snd ?R) = samples_skipped_r self"
              and "reference_velocity_r (snd ?R) = Some ref"
              using lp lt far Some Inr [unfolded n_def w_def] lpn [unfolded n_def]
                refn [unfolded n_def]
              by (simp_all add: check_condition_r_def store_simps Let_def n_def c_def
                  st3_def st4_def vel_def rn_def)
            moreover have "check_condition (Some p) now (deref g self) =
               (Inr (f_less (np_dot rn (arr_div (value_sw w' st3) (linalg_norm (value_sw w' st3))))
                       DIRECTION_TOLERANCE),
                (deref g self)\<lparr>last_position := Some (np_array p), last_time := Some now,
                        trending_velocity := deref_window ?c' w'\<rparr>)"
              using divergence_branch [OF _ V(1,2) far app', of "c ref"] Some
              by (simp add: V val rn_def)
            moreover have "?c' ref = c ref"
              using refn by (rule frame)
            ultimately show ?thesis
              using upd Some by (simp add: val4 deref_def [of g "snd _"])
                (simp add: deref_def c_def)
          qed
        qed
      qed
    qed
  qed
  then show ?thesis
    using Some by simp
qed

lemma reference_kept_check:
  "reference_velocity self = Some ref
    \<Longrightarrow> reference_velocity (snd (check_condition np now self)) = Some ref"
  by (auto simp: check_condition_def Let_def split: option.splits sum.splits)

lemma reference_kept_detect:
  "reference_velocity self = Some ref
    \<Longrightarrow> reference_velocity (snd (detect lookup now self)) = Some ref"
  by (cases "check_ground_method self")
    (simp_all add: detect_def tf_2_method_def gazebo_link_states_method_def reference_kept_check)

lemma snd_detect_calls_Cons:
  "snd (detect_calls ((lookup, now) # rest) self)
     = snd (detect_calls rest (snd (detect lookup now self)))"
  by (simp split: prod.splits)

lemma reference_kept_calls:
  "reference_velocity self = Some ref
    \<Longrightarrow> reference_velocity (snd (detect_calls inputs self)) = Some ref"
proof (induction inputs arbitrary: self)
  case Nil
  then show ?case by simp
next
  case (Cons i inputs)
  obtain lookup now where i: "i = (lookup, now)" by (cases i)
  have "reference_velocity (snd (detect lookup now self)) = Some ref"
    using Cons.prems by (rule reference_kept_detect)
  from Cons.IH [OF this] show ?case
    by (simp only: i snd_detect_calls_Cons)
qed

lemma reference_set_after_skip:
  assumes "reference_velocity self = None"
    and "reference_velocity (snd (detect lookup now self)) = Some v"
  shows "samples_skipped (snd (detect lookup now self)) = samples_skipped self + 1
       \<and> SKIP_SAMPLES_COUNT < samples_skipped (snd (detect lookup now self))
       \<and> valid_sw (trending_velocity (snd (detect lookup now self)))
       \<and> v = value_sw (trending_velocity (snd (detect lookup now self)))"
  using assms
  by (cases "check_ground_method self")
    (auto simp: detect_def tf_2_method_def gazebo_link_states_method_def check_condition_def
      Let_def split: option.splits sum.splits if_splits)

lemma check_calls_r_frame:
  assumes "refs_allocated self"
  shows "refs_allocated (check_calls_r inputs self)
       \<and> next_ref (store self) \<le> next_ref (store (check_calls_r inputs self))
       \<and> (\<forall>b<next_ref (store self).
            cells (store (check_calls_r inputs self)) b = cells (store self) b)
       \<and> (\<forall>a. reference_velocity_r self = Some a
            \<longrightarrow> reference_velocity_r (check_calls_r inputs self) = Some a)"
  using assms
proof (induction inputs arbitrary: self)
  case Nil
  then show ?case by simp
next
  case (Cons i inputs)
  obtain np now where i: "i = (np, now)" by (cases i)
  let ?s = "snd (check_condition_r np now self)"
  have eq: "check_condition_r np now self = (fst (check_condition_r np now self), ?s)"
    by simp
  have wf: "refs_allocated ?s"
    using eq Cons.prems by (rule refs_allocated_step)
  note fr = check_condition_r_frame [OF eq]
  from Cons.IH [OF wf] fr show ?case
    by (auto simp: i)
qed

lemma exact_inv_reset:
  "check_ground_method self = Tf_2_method \<Longrightarrow> exact_inv 0 (reset self)"
  by (simp add: exact_inv_def reset_def SlidingWindow_init_def)

lemma append_sw_length:
  assumes "wsize w = 5" and "length (que w) \<le> 5"
  shows "\<exists>w'. append_sw v w = Inr w' \<and> wsize w' = 5
     \<and> length (que w') = min (Suc (length (que w))) 5"
  using assms by (cases "que w") (auto simp: append_sw_def)

lemma exact_step:
  assumes "exact_inv k self" and "k < 10"
    and "\<And>t. last_time self = Some t \<Longrightarrow> \<not> np_isclose (now - t) 0 (1 / 10000)"
  shows "exact_inv (Suc k) (snd (detect (Transform p) now self))
       \<and> last_time (snd (detect (Transform p) now self)) = Some now"
proof (cases k)
  case 0
  then show ?thesis
    using assms(1)
    by (auto simp: detect_def tf_2_method_def check_condition_def exact_inv_def)
next
  case (Suc j)
  with assms(1) obtain lp lt where lp: "last_position self = Some lp"
    and lt: "last_time self = Some lt"
    by (auto simp: exact_inv_def)
  have far: "\<not> np_isclose (now - lt) 0 (1 / 10000)"
    using lt by (rule assms(3))
  let ?v = "arr_div (arr_sub (np_array p) lp) (Fin (now - lt))"
  have "wsize (trending_velocity self) = 5" "length (que (trending_velocity self)) \<le> 5"
    using assms(1) by (simp_all add: exact_inv_def ROLLING_AVERAGE_WINDOW_def)
  from append_sw_length [OF this, of ?v] obtain w' where
    w': "append_sw ?v (trending_velocity self) = Inr w'" "wsize w' = 5"
      "length (que w') = min (Suc (length (que (trending_velocity self)))) 5"
    by blast
  have ref: "reference_velocity self = None"
    using assms(1) by (simp add: exact_inv_def)
  show ?thesis
    using assms(1,2) Suc w'(2,3)
    by (auto simp: detect_def tf_2_method_def baseline_branch [OF ref lp lt far w'(1)]
        exact_inv_def valid_sw_def SKIP_SAMPLES_COUNT_def ROLLING_AVERAGE_WINDOW_def)
qed

lemma exact_step_last:
  assumes "exact_inv 10 self"
    and "\<And>t. last_time self = Some t \<Longrightarrow> \<not> np_isclose (now - t) 0 (1 / 10000)"
  shows "reference_velocity (snd (detect (Transform p) now self)) \<noteq> None"
proof -
  from assms(1) obtain lp lt where lp: "last_position self = Some lp"
    and lt: "last_time self = Some lt"
    by (auto simp: exact_inv_def)
  have far: "\<not> np_isclose (now - lt) 0 (1 / 10000)"
    using lt by (rule assms(2))
  let ?v = "arr_div (arr_sub (np_array p) lp) (Fin (now - lt))"
  have "wsize (trending_velocity self) = 5" "length (que (trending_velocity self)) \<le> 5"
    using assms(1) by (simp_all add: exact_inv_def ROLLING_AVERAGE_WINDOW_def)
  from append_sw_length [OF this, of ?v] obtain w' where
    w': "append_sw ?v (trending_velocity self) = Inr w'" "wsize w' = 5"
      "length (que w') = min (Suc (length (que (trending_velocity self)))) 5"
    by blast
  have ref: "reference_velocity self = None"
    using assms(1) by (simp add: exact_inv_def)
  show ?thesis
    using assms(1) w'(2,3)
    by (auto simp: detect_def tf_2_method_def baseline_branch [OF ref lp lt far w'(1)]
        exact_inv_def valid_sw_def SKIP_SAMPLES_COUNT_def ROLLING_AVERAGE_WINDOW_def)
qed

lemma run_sets_reference:
  assumes "exact_inv k self" and "k \<le> 10"
    and "spaced ((case last_time self of None \<Rightarrow> [] | Some t \<Rightarrow> [t]) @ map snd samples)"
  shows "reference_velocity (snd (detect_calls (map (\<lambda>(p, t). (Transform p, t)) samples) self))
           \<noteq> None
         \<longleftrightarrow> 10 < k + length samples"
  using assms
proof (induction samples arbitrary: k self)
  case Nil
  then show ?case by (simp add: exact_inv_def)
next
  case (Cons s samples)
  obtain p t where s: "s = (p, t)" by (cases s)
  let ?s' = "snd (detect (Transform p) t self)"
  have far: "\<not> np_isclose (t - t0) 0 (1 / 10000)" if "last_time self = Some t0" for t0
    using Cons.prems(3) that by (simp add: s)
  have sp: "spaced (t # map snd samples)"
    using Cons.prems(3) by (cases "last_time self") (simp_all add: s)
  have "reference_velocity
          (snd (detect_calls (map (\<lambda>(p, t). (Transform p, t)) samples) ?s')) \<noteq> None
        \<longleftrightarrow> 10 < Suc k + length samples"
  proof (cases "k < 10")
    case True
    from exact_step [OF Cons.prems(1) True far, of p]
    have inv: "exact_inv (Suc k) ?s'" and lt: "last_time ?s' = Some t"
      by simp_all
    have "spaced ((case last_time ?s' of None \<Rightarrow> [] | Some t \<Rightarrow> [t]) @ map snd samples)"
      using sp lt by simp
    from Cons.IH [OF inv _ this] True show ?thesis
      by simp
  next
    case False
    with Cons.prems(2) have k: "k = 10" by simp
    from exact_step_last [OF Cons.prems(1) [unfolded k] far, of p]
    obtain r where "reference_velocity ?s' = Some r"
      by auto
    then have "reference_velocity
        (snd (detect_calls (map (\<lambda>(p, t). (Transform p, t)) samples) ?s')) = Some r"
      by (rule reference_kept_calls)
    then show ?thesis
      by (simp add: k)
  qed
  then show ?case
    by (simp add: s snd_detect_calls_Cons del: detect_calls.simps)
qed

lemma reference_set_by_eleventh:
  assumes "check_ground_method self = Tf_2_method" and "spaced (map snd samples)"
  shows "reference_velocity
           (snd (detect_calls (map (\<lambda>(p, t). (Transform p, t)) samples) (reset self))) \<noteq> None
         \<longleftrightarrow> nat ROLLING_AVERAGE_WINDOW + nat SKIP_SAMPLES_COUNT < length samples"
proof -
  have "last_time (reset self) = None"
    by (simp add: reset_def)
  with run_sets_reference [OF exact_inv_reset [OF assms(1)], of samples] assms(2)
  show ?thesis
    by (simp add: ROLLING_AVERAGE_WINDOW_def SKIP_SAMPLES_COUNT_def)
qed

text \<open>
  C8. \<^verbatim>\<open>reset()\<close> clears the reference velocity. A call of \<^verbatim>\<open>detect()\<close> sets it only when the
  skip counter has passed the skip count, and sets it to the value of the window. Once set,
  it is the same after any sequence of calls. When every sample is accepted, it is set
  after a sequence of calls exactly when the sequence has more than 5 + 5 calls, so the
  eleventh call sets it. With arrays as objects: over any sequence of
  calls of \<^verbatim>\<open>_check_condition\<close> the reference field keeps naming the same array, and that array
  and every array that was in the window before the calls keep their contents, since the
  normalization divides copies in place. The method over the store computes what the method
  over values computes.
\<close>

theorem reference_velocity_set_once:
  "reference_velocity (reset self) = None
   \<and> (reference_velocity self = None
        \<and> reference_velocity (snd (detect lookup now self)) = Some v
        \<longrightarrow> SKIP_SAMPLES_COUNT < samples_skipped (snd (detect lookup now self))
            \<and> v = value_sw (trending_velocity (snd (detect lookup now self))))
   \<and> (reference_velocity self' = Some ref
        \<longrightarrow> reference_velocity (snd (detect_calls inputs self')) = Some ref)
   \<and> (check_ground_method self'' = Tf_2_method \<and> spaced (map snd samples)
        \<longrightarrow> (reference_velocity
               (snd (detect_calls (map (\<lambda>(p, t). (Transform p, t)) samples) (reset self'')))
               \<noteq> None
             \<longleftrightarrow> nat ROLLING_AVERAGE_WINDOW + nat SKIP_SAMPLES_COUNT < length samples))
   \<and> (refs_allocated self_r \<and> reference_velocity_r self_r = Some a
        \<longrightarrow> reference_velocity_r (check_calls_r inputs_r self_r) = Some a
            \<and> cells (store (check_calls_r inputs_r self_r)) a = cells (store self_r) a
            \<and> (\<forall>b\<in>set (que (trending_velocity_r self_r)).
                  cells (store (check_calls_r inputs_r self_r)) b = cells (store self_r) b))
   \<and> (refs_allocated self_r \<and> method_sw (trending_velocity_r self_r) = np_mean_axis0_refs
        \<longrightarrow> check_condition new_position t (deref g self_r)
              = (fst (check_condition_r new_position t self_r),
                 deref g (snd (check_condition_r new_position t self_r))))"
proof -
  have 1: "reference_velocity (reset self) = None"
    by (simp add: reset_def)
  have 4: "reference_velocity_r (check_calls_r inputs_r self_r) = Some a
      \<and> cells (store (check_calls_r inputs_r self_r)) a = cells (store self_r) a
      \<and> (\<forall>b\<in>set (que (trending_velocity_r self_r)).
            cells (store (check_calls_r inputs_r self_r)) b = cells (store self_r) b)"
    if wf: "refs_allocated self_r" and r: "reference_velocity_r self_r = Some a"
  proof -
    have "a < next_ref (store self_r)"
      and "\<forall>b\<in>set (que (trending_velocity_r self_r)). b < next_ref (store self_r)"
      using wf r by (simp_all add: refs_allocated_def)
    with check_calls_r_frame [OF wf, of inputs_r] r show ?thesis
      by blast
  qed
  from 1 4 show ?thesis
    using reference_set_after_skip [of self lookup now v]
      reference_kept_calls [of self' ref inputs]
      reference_set_by_eleventh [of self'' samples]
      check_condition_refines [of self_r new_position t g]
    by blast
qed

theorem reference_velocity_set_once_witness:
  "reference_velocity
      (snd (detect (Transform (Vector3 (Fin 0) (Fin 0) (Fin (-10)))) 10 before_reference))
     = Some (fin_array (0, 0, -1))
   \<and> SKIP_SAMPLES_COUNT
       < samples_skipped
           (snd (detect (Transform (Vector3 (Fin 0) (Fin 0) (Fin (-10)))) 10 before_reference))
   \<and> reference_velocity (snd (detect_calls slip after_descent)) = Some (fin_array (0, 0, -1))
   \<and> reference_velocity
         (snd (detect_calls
                 (map (\<lambda>(p, t). (Transform p, t))
                    [(Vector3 (Fin 0) (Fin 0) (Fin 0), 0), (Vector3 (Fin 0) (Fin 0) (Fin (-1)), 1)])
                 (reset GroundDetector_init)))
       = None
   \<and> reference_velocity_r
         (check_calls_r [(Some (Vector3 (Fin 0) (Fin 0) (Fin (-11))), 11)] after_descent_refs)
       = Some 6
   \<and> cells (store
         (check_calls_r [(Some (Vector3 (Fin 0) (Fin 0) (Fin (-11))), 11)] after_descent_refs)) 6
       = fin_array (0, 0, -1)
   \<and> deref GroundDetector_init after_descent_refs = after_descent
   \<and> check_condition (Some (Vector3 (Fin 0) (Fin 0) (Fin (-11)))) 11 after_descent
       = (fst (check_condition_r (Some (Vector3 (Fin 0) (Fin 0) (Fin (-11)))) 11
                 after_descent_refs),
          deref GroundDetector_init
            (snd (check_condition_r (Some (Vector3 (Fin 0) (Fin 0) (Fin (-11)))) 11
                    after_descent_refs)))"
proof -
  let ?l = "Transform (Vector3 (Fin 0) (Fin 0) (Fin (-10)))"
  let ?p = "Some (Vector3 (Fin 0) (Fin 0) (Fin (-11)))"
  have a: "reference_velocity before_reference = None"
    by (simp add: before_reference_def)
  have b: "reference_velocity (snd (detect ?l 10 before_reference)) = Some (fin_array (0, 0, -1))"
    by (simp add: before_reference_def run_simps numeral_eq_Suc)
  have c: "reference_velocity after_descent = Some (fin_array (0, 0, -1))"
    by (simp add: after_descent_def)
  have d: "refs_allocated after_descent_refs"
    by (simp add: refs_allocated_def after_descent_refs_def)
  have e: "reference_velocity_r after_descent_refs = Some 6"
    by (simp add: after_descent_refs_def)
  have f: "method_sw (trending_velocity_r after_descent_refs) = np_mean_axis0_refs"
    by (simp add: after_descent_refs_def)
  have g: "cells (store after_descent_refs) 6 = fin_array (0, 0, -1)"
    by (simp add: after_descent_refs_def)
  have i: "check_ground_method GroundDetector_init = Tf_2_method"
    by (simp add: init_simps)
  have j: "spaced (map snd
      [(Vector3 (Fin 0) (Fin 0) (Fin 0), 0::real), (Vector3 (Fin 0) (Fin 0) (Fin (-1)), 1)])"
    by (simp add: np_isclose_def)
  have k: "\<not> nat ROLLING_AVERAGE_WINDOW + nat SKIP_SAMPLES_COUNT
      < length [(Vector3 (Fin 0) (Fin 0) (Fin 0), 0::real), (Vector3 (Fin 0) (Fin 0) (Fin (-1)), 1)]"
    by (simp add: ROLLING_AVERAGE_WINDOW_def SKIP_SAMPLES_COUNT_def)
  have h: "deref GroundDetector_init after_descent_refs = after_descent"
    by (simp add: deref_def deref_window_def after_descent_refs_def after_descent_def
        GroundDetector_init_def reset_def Let_def numeral_eq_Suc)
  show ?thesis
    using reference_velocity_set_once
      [where self = before_reference and lookup = ?l and now = 10
          and v = "fin_array (0, 0, -1)" and self' = after_descent
          and ref = "fin_array (0, 0, -1)" and inputs = slip and self_r = after_descent_refs
          and self'' = GroundDetector_init
          and samples = "[(Vector3 (Fin 0) (Fin 0) (Fin 0), 0),
            (Vector3 (Fin 0) (Fin 0) (Fin (-1)), 1)]"
          and a = 6 and inputs_r = "[(?p, 11)]" and new_position = ?p and t = 11
          and g = GroundDetector_init]
      a b c d e f g h i j k
    by (simp del: detect_calls.simps list.map)
qed

text \<open>
  The other strategy latches: once \<^verbatim>\<open>_ground_detected\<close> is set, the subscriber callback ignores
  every message and \<^verbatim>\<open>detect()\<close> returns true.
\<close>

lemma handle_link_states_latched:
  "ground_detected self \<Longrightarrow> handle_link_states data now self = (Inr (), self)"
  by (simp add: handle_link_states_def)

lemma gazebo_detect_latched:
  assumes "check_ground_method self = Gazebo_link_states_method" and "ground_detected self"
  shows "detect lookup now self = (Inr True, self)"
  using assms by (simp add: detect_def gazebo_link_states_method_def)

end
